theory Spec2Isabelle
  imports Complex_Main "HOL-Library.Product_Lexorder"
begin
section \<open>JavaScript values and strings\<close>

text \<open>
  The component is JavaScript. Its strings are modelled as lists of code units below 256
  (field API names, operators and filters are ASCII in practice), its numbers as exact
  rationals extended by NaN and the two infinities: the rounding of IEEE doubles is not
  modelled, and \<open>-0\<close> is identified with \<open>0\<close> (the code only compares numbers, and both zeros
  compare equal). Objects used as dictionaries (\<open>recordData\<close>, \<open>iconFormatCache\<close>) are
  maps whose missing keys read as \<open>undefined\<close>; members inherited from
  \<open>Object.prototype\<close> are not modelled.
\<close>

datatype jsnum = NaN | PosInf | NegInf | Fin rat

datatype jsval = JUndefined | JNull | JBool bool | JNum jsnum | JStr string

datatype error = TypeError | Error string

subsection \<open>Characters\<close>

definition code :: "char \<Rightarrow> nat" where
  "code c = of_char c"

definition isWordChar :: "char \<Rightarrow> bool" where
  \<comment> \<open>the class \<open>\w\<close>, to which \<open>\b\<close> refers\<close>
  "isWordChar c =
     ((97 \<le> code c \<and> code c \<le> 122) \<or> (65 \<le> code c \<and> code c \<le> 90)
      \<or> (48 \<le> code c \<and> code c \<le> 57) \<or> code c = 95)"

definition isDigit :: "char \<Rightarrow> bool" where
  "isDigit c = (48 \<le> code c \<and> code c \<le> 57)"

definition isWhiteSpace :: "char \<Rightarrow> bool" where
  \<comment> \<open>WhiteSpace and LineTerminator below 256: TAB, LF, VT, FF, CR, SP, NBSP\<close>
  "isWhiteSpace c = (code c \<in> {9, 10, 11, 12, 13, 32, 160})"

definition toLowerChar :: "char \<Rightarrow> char" where
  "toLowerChar c =
     (if (65 \<le> code c \<and> code c \<le> 90) \<or> (192 \<le> code c \<and> code c \<le> 222 \<and> code c \<noteq> 215)
      then char_of (code c + 32) else c)"

subsection \<open>String methods\<close>

definition toLowerCase :: "string \<Rightarrow> string" where
  "toLowerCase s = map toLowerChar s"

definition trim :: "string \<Rightarrow> string" where
  "trim s = rev (dropWhile isWhiteSpace (rev (dropWhile isWhiteSpace s)))"

definition startsWith :: "string \<Rightarrow> string \<Rightarrow> bool" where
  \<comment> \<open>\<open>startsWith p s\<close>: the string \<open>s\<close> begins with \<open>p\<close>\<close>
  "startsWith p s = (take (length p) s = p)"

fun includesStr :: "string \<Rightarrow> string \<Rightarrow> bool" where
  \<comment> \<open>\<open>s.includes(sub)\<close> for strings\<close>
  "includesStr [] sub = (sub = [])"
| "includesStr (c # cs) sub = (startsWith sub (c # cs) \<or> includesStr cs sub)"

fun replaceFirst :: "string \<Rightarrow> string \<Rightarrow> string \<Rightarrow> string" where
  \<comment> \<open>\<open>s.replace(pat, rep)\<close> with a string pattern: the first occurrence only;
      the code's replacements hold no \<open>$\<close>\<close>
  "replaceFirst pat rep [] = (if pat = [] then rep else [])"
| "replaceFirst pat rep (c # cs) =
     (if startsWith pat (c # cs) then rep @ drop (length pat) (c # cs)
      else c # replaceFirst pat rep cs)"

fun splitFrom :: "string \<Rightarrow> string \<Rightarrow> string \<Rightarrow> string list" where
  \<comment> \<open>\<open>splitFrom sep cur s\<close>: \<open>cur\<close> is the piece read so far; \<open>sep\<close> is not empty\<close>
  "splitFrom sep cur [] = [cur]"
| "splitFrom sep cur (c # cs) =
     (if sep \<noteq> [] \<and> startsWith sep (c # cs)
      then cur # splitFrom sep [] (drop (length sep - 1) cs)
      else splitFrom sep (cur @ [c]) cs)"

definition split :: "string \<Rightarrow> string \<Rightarrow> string list" where
  \<comment> \<open>\<open>s.split(sep)\<close>\<close>
  "split sep s = (if sep = [] then map (\<lambda>c. [c]) s else splitFrom sep [] s)"

fun joinWith :: "string \<Rightarrow> string list \<Rightarrow> string" where
  \<comment> \<open>\<open>parts.join(sep)\<close>\<close>
  "joinWith sep [] = []"
| "joinWith sep [p] = p"
| "joinWith sep (p # q # ps) = p @ sep @ joinWith sep (q # ps)"

definition boundaryAt :: "string \<Rightarrow> bool" where
  \<comment> \<open>\<open>\b\<close> after a word character: the rest is empty or starts with a non-word character\<close>
  "boundaryAt rest = (case rest of [] \<Rightarrow> True | d # _ \<Rightarrow> \<not> isWordChar d)"

fun replaceWordFrom :: "string \<Rightarrow> string \<Rightarrow> bool \<Rightarrow> string \<Rightarrow> string" where
  \<comment> \<open>\<open>s.replace(/\bw\b/g, rep)\<close> for a non-empty \<open>w\<close> of word characters;
      the flag tells whether the character before the position is a word character\<close>
  "replaceWordFrom w rep prev [] = []"
| "replaceWordFrom w rep prev (c # cs) =
     (if w \<noteq> [] \<and> \<not> prev \<and> startsWith w (c # cs) \<and> boundaryAt (drop (length w - 1) cs)
      then rep @ replaceWordFrom w rep True (drop (length w - 1) cs)
      else c # replaceWordFrom w rep (isWordChar c) cs)"

definition replaceWord :: "string \<Rightarrow> string \<Rightarrow> string \<Rightarrow> string" where
  "replaceWord w rep s = replaceWordFrom w rep False s"

definition digitChar :: "nat \<Rightarrow> char" where
  "digitChar d = char_of (48 + d)"

fun showNat :: "nat \<Rightarrow> string" where
  \<comment> \<open>the decimal numeral of a natural number, as string concatenation renders an index\<close>
  "showNat n = (if n < 10 then [digitChar n] else showNat (n div 10) @ [digitChar (n mod 10)])"

declare showNat.simps [simp del]

subsection \<open>Numbers: \<open>Number(v)\<close>, \<open>isNaN(v)\<close>, comparison\<close>

definition digitsToNat :: "string \<Rightarrow> nat" where
  "digitsToNat ds = foldl (\<lambda>n c. 10 * n + (code c - 48)) 0 ds"

definition radixDigit :: "char \<Rightarrow> nat option" where
  "radixDigit c =
     (if isDigit c then Some (code c - 48)
      else if 97 \<le> code c \<and> code c \<le> 102 then Some (code c - 87)
      else if 65 \<le> code c \<and> code c \<le> 70 then Some (code c - 55)
      else None)"

definition parseRadix :: "nat \<Rightarrow> string \<Rightarrow> jsnum" where
  \<comment> \<open>the digits of a \<open>0x\<close>, \<open>0o\<close> or \<open>0b\<close> literal\<close>
  "parseRadix r ds =
     (if ds \<noteq> [] \<and> list_all (\<lambda>c. case radixDigit c of None \<Rightarrow> False | Some d \<Rightarrow> d < r) ds
      then Fin (of_nat (foldl (\<lambda>n c. r * n + the (radixDigit c)) 0 ds))
      else NaN)"

definition scale10 :: "rat \<Rightarrow> int \<Rightarrow> rat" where
  "scale10 q e = (if 0 \<le> e then q * 10 ^ nat e else q / 10 ^ nat (- e))"

definition parseExponent :: "string \<Rightarrow> int option" where
  "parseExponent s =
     (case s of
        [] \<Rightarrow> Some 0
      | c # r \<Rightarrow>
          if c = CHR ''e'' \<or> c = CHR ''E'' then
            (let sgn = (case r of d # _ \<Rightarrow> if d = CHR ''-'' then (- 1 :: int) else 1 | [] \<Rightarrow> 1);
                 ds = (case r of d # t \<Rightarrow> if d = CHR ''-'' \<or> d = CHR ''+'' then t else r | [] \<Rightarrow> r)
             in if ds \<noteq> [] \<and> list_all isDigit ds then Some (sgn * int (digitsToNat ds)) else None)
          else None)"

definition parseUnsignedDecimal :: "string \<Rightarrow> jsnum" where
  \<comment> \<open>StrUnsignedDecimalLiteral: \<open>Infinity\<close>, or digits with an optional fraction and exponent\<close>
  "parseUnsignedDecimal s =
     (if s = ''Infinity'' then PosInf
      else
        let ip = takeWhile isDigit s;
            r1 = dropWhile isDigit s;
            fp = (case r1 of c # t \<Rightarrow> if c = CHR ''.'' then takeWhile isDigit t else [] | [] \<Rightarrow> []);
            r2 = (case r1 of c # t \<Rightarrow> if c = CHR ''.'' then dropWhile isDigit t else r1 | [] \<Rightarrow> [])
        in if ip = [] \<and> fp = [] then NaN
           else (case parseExponent r2 of
                   None \<Rightarrow> NaN
                 | Some e \<Rightarrow> Fin (scale10 (of_nat (digitsToNat (ip @ fp))) (e - int (length fp)))))"

definition negate :: "jsnum \<Rightarrow> jsnum" where
  "negate x = (case x of NaN \<Rightarrow> NaN | PosInf \<Rightarrow> NegInf | NegInf \<Rightarrow> PosInf | Fin q \<Rightarrow> Fin (- q))"

definition stringToNumber :: "string \<Rightarrow> jsnum" where
  \<comment> \<open>StringToNumber: surrounding white space is skipped, the empty string is 0\<close>
  "stringToNumber s =
     (let t = trim s in
      if t = [] then Fin 0
      else if startsWith ''0x'' t \<or> startsWith ''0X'' t then parseRadix 16 (drop 2 t)
      else if startsWith ''0o'' t \<or> startsWith ''0O'' t then parseRadix 8 (drop 2 t)
      else if startsWith ''0b'' t \<or> startsWith ''0B'' t then parseRadix 2 (drop 2 t)
      else if hd t = CHR ''+'' then parseUnsignedDecimal (tl t)
      else if hd t = CHR ''-'' then negate (parseUnsignedDecimal (tl t))
      else parseUnsignedDecimal t)"

fun toNumber :: "jsval \<Rightarrow> jsnum" where
  \<comment> \<open>\<open>Number(v)\<close>\<close>
  "toNumber JUndefined = NaN"
| "toNumber JNull = Fin 0"
| "toNumber (JBool b) = (if b then Fin 1 else Fin 0)"
| "toNumber (JNum x) = x"
| "toNumber (JStr s) = stringToNumber s"

definition isNaN :: "jsval \<Rightarrow> bool" where
  "isNaN v = (toNumber v = NaN)"

fun numLess :: "jsnum \<Rightarrow> jsnum \<Rightarrow> bool option" where
  \<comment> \<open>\<open>x < y\<close> on numbers; \<open>None\<close> is the undefined result of a comparison with NaN\<close>
  "numLess NaN y = None"
| "numLess x NaN = None"
| "numLess PosInf y = Some False"
| "numLess x PosInf = Some True"
| "numLess x NegInf = Some False"
| "numLess NegInf y = Some True"
| "numLess (Fin p) (Fin q) = Some (p < q)"

fun strLess :: "string \<Rightarrow> string \<Rightarrow> bool" where
  \<comment> \<open>strings compare by code units\<close>
  "strLess s [] = False"
| "strLess [] (d # ds) = True"
| "strLess (c # cs) (d # ds) = (if c = d then strLess cs ds else code c < code d)"

fun jsLess :: "jsval \<Rightarrow> jsval \<Rightarrow> bool option" where
  \<comment> \<open>the relational comparison of two primitives: two strings compare as strings,
      everything else as numbers\<close>
  "jsLess (JStr s) (JStr t) = Some (strLess s t)"
| "jsLess a b = numLess (toNumber a) (toNumber b)"

definition jsGT :: "jsval \<Rightarrow> jsval \<Rightarrow> bool" where
  "jsGT a b = (jsLess b a = Some True)"

definition jsLT :: "jsval \<Rightarrow> jsval \<Rightarrow> bool" where
  "jsLT a b = (jsLess a b = Some True)"

definition jsGE :: "jsval \<Rightarrow> jsval \<Rightarrow> bool" where
  "jsGE a b = (jsLess a b = Some False)"

definition jsLE :: "jsval \<Rightarrow> jsval \<Rightarrow> bool" where
  "jsLE a b = (jsLess b a = Some False)"

definition strictEquals :: "jsval \<Rightarrow> jsval \<Rightarrow> bool" where
  \<comment> \<open>\<open>a === b\<close>: NaN differs from itself\<close>
  "strictEquals a b = (a = b \<and> a \<noteq> JNum NaN)"

subsection \<open>\<open>String(v)\<close>\<close>

definition decimalShift :: "int \<Rightarrow> nat" where
  \<comment> \<open>the least \<open>j\<close> with \<open>b\<close> dividing \<open>10 ^ j\<close>, searched up to four times the number of
      digits of \<open>b\<close>: it exists for the denominator of every decimal fraction, and no other
      number arises from a JSON literal or a conversion\<close>
  "decimalShift b =
     (case find (\<lambda>j. b dvd 10 ^ j) [0 ..< Suc (4 * length (showNat (nat b)))] of
        Some j \<Rightarrow> j
      | None \<Rightarrow> 0)"

definition positiveToString :: "rat \<Rightarrow> string" where
  \<comment> \<open>Number::toString for a positive number \<open>0.s * 10 ^ n\<close> with \<open>k\<close> digits \<open>s\<close>\<close>
  "positiveToString q =
     (let a = fst (quotient_of q); b = snd (quotient_of q);
          j = decimalShift b;
          ds = showNat (nat (a * 10 ^ j div b));
          s = rev (dropWhile (\<lambda>c. c = CHR ''0'') (rev ds));
          k = int (length s);
          n = int (length ds) - int j;
          es = (if n - 1 < 0 then ''-'' else ''+'') @ showNat (nat \<bar>n - 1\<bar>)
      in if k \<le> n \<and> n \<le> 21 then s @ replicate (nat (n - k)) CHR ''0''
         else if 0 < n \<and> n \<le> 21 then take (nat n) s @ ''.'' @ drop (nat n) s
         else if - 6 < n \<and> n \<le> 0 then ''0.'' @ replicate (nat (- n)) CHR ''0'' @ s
         else if k = 1 then s @ ''e'' @ es
         else take 1 s @ ''.'' @ drop 1 s @ ''e'' @ es)"

fun numberToString :: "jsnum \<Rightarrow> string" where
  "numberToString NaN = ''NaN''"
| "numberToString PosInf = ''Infinity''"
| "numberToString NegInf = ''-Infinity''"
| "numberToString (Fin q) =
     (if q = 0 then ''0'' else if q < 0 then ''-'' @ positiveToString (- q) else positiveToString q)"

fun toString :: "jsval \<Rightarrow> string" where
  "toString JUndefined = ''undefined''"
| "toString JNull = ''null''"
| "toString (JBool b) = (if b then ''true'' else ''false'')"
| "toString (JNum x) = numberToString x"
| "toString (JStr s) = s"

fun truthy :: "jsval \<Rightarrow> bool" where
  \<comment> \<open>what \<open>if (v)\<close>, \<open>!v\<close> and \<open>filter\<close> read off a value\<close>
  "truthy JUndefined = False"
| "truthy JNull = False"
| "truthy (JBool b) = b"
| "truthy (JNum x) = (x \<noteq> NaN \<and> x \<noteq> Fin 0)"
| "truthy (JStr s) = (s \<noteq> [])"

section \<open>Visibility rules\<close>

text \<open>
  \<open>evaluateVisibilityRule\<close> and \<open>evaluateBooleanExpression\<close> of the form component. A
  criterion's \<open>leftValue\<close> is the field reference \<open>{!Record.Name}\<close>, a string; its
  \<open>rightValue\<close> is any value, \<open>JUndefined\<close> when the criterion has none.
\<close>

type_synonym recordData = "string \<rightharpoonup> jsval"

record criterion =
  leftValue :: string
  operator :: string
  rightValue :: jsval

record visibilityRule =
  criteria :: "criterion list option"
  booleanFilter :: "string option"

definition recordValue :: "recordData \<Rightarrow> string \<Rightarrow> jsval" where
  \<comment> \<open>\<open>this.recordData[key]\<close>\<close>
  "recordValue rd key = (case rd key of None \<Rightarrow> JUndefined | Some v \<Rightarrow> v)"

definition leftFieldApiName :: "criterion \<Rightarrow> string" where
  "leftFieldApiName c =
     toLowerCase (replaceFirst ''}'' [] (replaceFirst ''{!Record.'' [] (leftValue c)))"

definition conditionMet :: "recordData \<Rightarrow> criterion \<Rightarrow> error + jsval" where
  \<comment> \<open>the callback of \<open>visibilityRule.criteria.map\<close>: \<open>leftValue?.includes\<close> is
      \<open>undefined\<close> on a missing value and not a function on a number or a boolean\<close>
  "conditionMet rd c =
     (let lv = recordValue rd (leftFieldApiName c); rv = rightValue c in
      if operator c = ''CONTAINS'' then
        (case lv of
           JUndefined \<Rightarrow> Inr JUndefined
         | JNull \<Rightarrow> Inr JUndefined
         | JStr s \<Rightarrow> Inr (JBool (includesStr s (toString rv)))
         | _ \<Rightarrow> Inl TypeError)
      else if operator c = ''EQUAL'' then Inr (JBool (strictEquals lv rv))
      else if operator c = ''NE'' then Inr (JBool (\<not> strictEquals lv rv))
      else if operator c = ''GT'' then Inr (JBool (jsGT lv rv))
      else if operator c = ''GE'' then Inr (JBool (jsGE lv rv))
      else if operator c = ''LE'' then Inr (JBool (jsLE lv rv))
      else if operator c = ''LT'' then Inr (JBool (jsLT lv rv))
      else Inr (JBool False))"

fun mapCriteria :: "recordData \<Rightarrow> criterion list \<Rightarrow> error + jsval list" where
  \<comment> \<open>\<open>criteria.map(...)\<close>: the first criterion that raises ends the call\<close>
  "mapCriteria rd [] = Inr []"
| "mapCriteria rd (c # cs) =
     (case conditionMet rd c of
        Inl e \<Rightarrow> Inl e
      | Inr r \<Rightarrow> (case mapCriteria rd cs of Inl e \<Rightarrow> Inl e | Inr rs \<Rightarrow> Inr (r # rs)))"

fun evalAndParts :: "bool \<Rightarrow> string list \<Rightarrow> error + bool" where
  \<comment> \<open>the inner loop over \<open>andParts\<close>, from the current \<open>andResult\<close>\<close>
  "evalAndParts andResult [] = Inr andResult"
| "evalAndParts andResult (andPart # rest) =
     (let v = trim andPart in
      if v = ''1'' then evalAndParts (andResult \<and> True) rest
      else if v = ''0'' then evalAndParts (andResult \<and> False) rest
      else Inl (Error (''Unexpected value in boolean expression: '' @ v)))"

fun evalOrParts :: "string list \<Rightarrow> error + bool" where
  \<comment> \<open>the outer loop over \<open>orParts\<close>: the first part that holds returns \<open>true\<close>\<close>
  "evalOrParts [] = Inr False"
| "evalOrParts (orPart # rest) =
     (case evalAndParts True (split ''&&'' (trim orPart)) of
        Inl e \<Rightarrow> Inl e
      | Inr andResult \<Rightarrow> if andResult then Inr True else evalOrParts rest)"

definition evaluateBooleanExpression :: "string \<Rightarrow> error + bool" where
  "evaluateBooleanExpression expression =
     evalOrParts (split ''||'' (replaceWord ''false'' ''0'' (replaceWord ''true'' ''1'' expression)))"

fun substituteResults :: "nat \<Rightarrow> jsval list \<Rightarrow> string \<Rightarrow> string" where
  \<comment> \<open>\<open>results.forEach((result, index) => ...)\<close> from \<open>index\<close> on: every whole-word
      \<open>index + 1\<close> becomes \<open>String(result)\<close>\<close>
  "substituteResults index [] expression = expression"
| "substituteResults index (r # rs) expression =
     substituteResults (Suc index) rs (replaceWord (showNat (Suc index)) (toString r) expression)"

definition filterExpression :: "string \<Rightarrow> jsval list \<Rightarrow> string" where
  \<comment> \<open>the expression handed to \<open>evaluateBooleanExpression\<close>\<close>
  "filterExpression f results =
     substituteResults 0 results
       (replaceWord ''or'' ''||'' (replaceWord ''and'' ''&&'' (toLowerCase f)))"

definition evaluateVisibilityRule :: "recordData \<Rightarrow> visibilityRule option \<Rightarrow> error + jsval" where
  "evaluateVisibilityRule rd rule =
     (case rule of
        None \<Rightarrow> Inr (JBool True)
      | Some r \<Rightarrow>
          (case criteria r of
             None \<Rightarrow> Inr (JBool True)
           | Some cs \<Rightarrow>
               (case mapCriteria rd cs of
                  Inl e \<Rightarrow> Inl e
                | Inr results \<Rightarrow>
                    (let isVisible = (case results of [] \<Rightarrow> JBool True | x # _ \<Rightarrow> x) in
                     case booleanFilter r of
                       None \<Rightarrow> Inr isVisible
                     | Some f \<Rightarrow>
                         if f = [] then Inr isVisible
                         else (case evaluateBooleanExpression (filterExpression f results) of
                                 Inl e \<Rightarrow> Inr (JBool False)
                               | Inr b \<Rightarrow> Inr (JBool b))))))"

text \<open>
  The operands the evaluator reads, part by part: the pieces between \<open>||\<close>, each cut at
  \<open>&&\<close> and trimmed.
\<close>

definition operandsOf :: "string \<Rightarrow> string list" where
  "operandsOf orPart = map trim (split ''&&'' (trim orPart))"

definition orOperands :: "string \<Rightarrow> string list list" where
  "orOperands expression =
     map operandsOf
       (split ''||'' (replaceWord ''false'' ''0'' (replaceWord ''true'' ''1'' expression)))"

definition malformed :: "string \<Rightarrow> bool" where
  "malformed v = (v \<noteq> ''1'' \<and> v \<noteq> ''0'')"

definition allOnes :: "string list \<Rightarrow> bool" where
  "allOnes ops = list_all (\<lambda>v. v = ''1'') ops"

section \<open>Objects and arrays\<close>

text \<open>
  An object used as a dictionary keeps its string keys in insertion order: it is an
  association list with one entry per key. Assigning to a key that exists replaces the entry
  where it stands, a new key goes last. (Keys that are array indices, which JavaScript lists
  first, do not occur among field names and facet identifiers.)
\<close>

type_synonym 'v obj = "(string \<times> 'v) list"

fun setKey :: "string \<Rightarrow> 'v \<Rightarrow> 'v obj \<Rightarrow> 'v obj" where
  \<comment> \<open>\<open>ob[k] = v\<close>\<close>
  "setKey k v [] = [(k, v)]"
| "setKey k v ((k', v') # rest) =
     (if k' = k then (k, v) # rest else (k', v') # setKey k v rest)"

definition deleteKey :: "string \<Rightarrow> 'v obj \<Rightarrow> 'v obj" where
  \<comment> \<open>\<open>delete ob[k]\<close>\<close>
  "deleteKey k ob = filter (\<lambda>entry. fst entry \<noteq> k) ob"

text \<open>
  \<open>Array.prototype.sort\<close> is stable. For the comparators of this code, which order by
  integer keys, its result is the stable sort by the comparator, computed here by insertion.
\<close>

fun insertBy :: "('a \<Rightarrow> 'a \<Rightarrow> int) \<Rightarrow> 'a \<Rightarrow> 'a list \<Rightarrow> 'a list" where
  "insertBy cmp x [] = [x]"
| "insertBy cmp x (y # ys) = (if cmp x y \<le> 0 then x # y # ys else y # insertBy cmp x ys)"

definition sortBy :: "('a \<Rightarrow> 'a \<Rightarrow> int) \<Rightarrow> 'a list \<Rightarrow> 'a list" where
  "sortBy cmp xs = foldr (insertBy cmp) xs []"

section \<open>Icon rules\<close>

record iconRef =
  iconName :: jsval
  iconResourcePath :: jsval

record iconRule =
  visibilityGroup :: int
  visibilityRank :: int
  ruleOperator :: string
  operand :: jsval
  icon :: "iconRef option"
  iconColor :: jsval

text \<open>
  The descriptor \<open>{type: "icon", iconName, iconResourcePath, iconColor}\<close> that
  \<open>evaluateIconRules\<close> returns; \<open>None\<close> stands for \<open>null\<close>.
\<close>

datatype formatStyle = IconStyle jsval jsval jsval

definition numericIfPossible :: "jsval \<Rightarrow> jsval" where
  \<comment> \<open>\<open>!isNaN(v) ? Number(v) : v\<close>\<close>
  "numericIfPossible v = (if \<not> isNaN v then JNum (toNumber v) else v)"

definition compareRules :: "iconRule \<Rightarrow> iconRule \<Rightarrow> int" where
  \<comment> \<open>the comparator handed to \<open>sort\<close>\<close>
  "compareRules a b =
     (if visibilityGroup a \<noteq> visibilityGroup b then visibilityGroup a - visibilityGroup b
      else visibilityRank a - visibilityRank b)"

definition ruleMatches :: "jsval \<Rightarrow> iconRule \<Rightarrow> bool" where
  \<comment> \<open>\<open>matches\<close> after the \<open>switch\<close> on \<open>rule.operator\<close>\<close>
  "ruleMatches numValue rule =
     (let opnd = numericIfPossible (operand rule) in
      if ruleOperator rule = ''GT'' then jsGT numValue opnd
      else if ruleOperator rule = ''GE'' then jsGE numValue opnd
      else if ruleOperator rule = ''LT'' then jsLT numValue opnd
      else if ruleOperator rule = ''LE'' then jsLE numValue opnd
      else if ruleOperator rule = ''EQUAL'' then strictEquals numValue opnd
      else if ruleOperator rule = ''NE'' then \<not> strictEquals numValue opnd
      else False)"

fun firstMatchingIcon :: "jsval \<Rightarrow> iconRule list \<Rightarrow> formatStyle option" where
  \<comment> \<open>the loop over \<open>sortedRules\<close>: it returns at the first rule with
      \<open>matches && rule.icon\<close>\<close>
  "firstMatchingIcon numValue [] = None"
| "firstMatchingIcon numValue (rule # rest) =
     (if ruleMatches numValue rule then
        (case icon rule of
           Some ic \<Rightarrow> Some (IconStyle (iconName ic) (iconResourcePath ic) (iconColor rule))
         | None \<Rightarrow> firstMatchingIcon numValue rest)
      else firstMatchingIcon numValue rest)"

definition evaluateIconRules ::
  "recordData \<Rightarrow> iconRule list option \<Rightarrow> string \<Rightarrow> formatStyle option" where
  "evaluateIconRules rd iconRules fieldId =
     (case iconRules of
        None \<Rightarrow> None
      | Some rs \<Rightarrow>
          if rs = [] then None
          else
            let fieldValue = recordValue rd (toLowerCase fieldId) in
            if fieldValue = JNull \<or> fieldValue = JUndefined then None
            else firstMatchingIcon (numericIfPossible fieldValue) (sortBy compareRules rs))"

text \<open>
  For the statement of what the evaluation returns: the descriptor a rule stands for, and
  the key the rules are ordered by.
\<close>

definition descriptorOf :: "iconRule \<Rightarrow> formatStyle option" where
  "descriptorOf rule =
     (case icon rule of
        None \<Rightarrow> None
      | Some ic \<Rightarrow> Some (IconStyle (iconName ic) (iconResourcePath ic) (iconColor rule)))"

definition groupAndRank :: "iconRule \<Rightarrow> int \<times> int" where
  "groupAndRank rule = (visibilityGroup rule, visibilityRank rule)"

section \<open>Conditional formatting by a rule set name\<close>

text \<open>
  \<open>evaluateConditionalFormatRule\<close> is an async function. For a rule set given by its name
  (a string, which the function turns into \<open>{type: "icon", value: name}\<close>) it runs without
  interruption up to \<open>await getUiFormatSpecificationSet(...)\<close>: it reads the cache and, on
  a miss, calls the Apex method and suspends. It resumes when that call settles. The state
  is the component's \<open>iconFormatCache\<close> and the list of calls made to the Apex method.
  Inline rule sets (objects with text rules) are outside this development.
\<close>

record iconRuleSet =
  rules :: "iconRule list option"

record formatState =
  iconFormatCache :: "string \<rightharpoonup> iconRuleSet option"
  fetchCalls :: "string list"

datatype evaluation = Returned "formatStyle option" | AwaitingFetch string

definition cachedRuleSet :: "formatState \<Rightarrow> string \<Rightarrow> iconRuleSet option" where
  \<comment> \<open>\<open>this.iconFormatCache[name]\<close>; \<open>None\<close> when it is falsy (no entry, or \<open>null\<close>)\<close>
  "cachedRuleSet st name = (case iconFormatCache st name of None \<Rightarrow> None | Some v \<Rightarrow> v)"

definition iconResult :: "recordData \<Rightarrow> formatState \<Rightarrow> string \<Rightarrow> string \<Rightarrow> formatStyle option" where
  \<comment> \<open>from \<open>const iconRuleSet = this.iconFormatCache[...]\<close> to the end: a set without
      \<open>rules\<close> falls through to \<open>!conditionalFormatRuleset.rules\<close> and \<open>null\<close>\<close>
  "iconResult rd st name fieldId =
     (case cachedRuleSet st name of
        None \<Rightarrow> None
      | Some ruleSet \<Rightarrow>
          (case rules ruleSet of
             None \<Rightarrow> None
           | Some rs \<Rightarrow> evaluateIconRules rd (Some rs) fieldId))"

definition evaluateConditionalFormatRule ::
  "recordData \<Rightarrow> formatState \<Rightarrow> string option \<Rightarrow> string \<Rightarrow> evaluation \<times> formatState" where
  \<comment> \<open>the call, up to its return or to the \<open>await\<close>\<close>
  "evaluateConditionalFormatRule rd st conditionalFormatRuleset fieldId =
     (case conditionalFormatRuleset of
        None \<Rightarrow> (Returned None, st)
      | Some name \<Rightarrow>
          if name = [] then (Returned None, st)
          else if cachedRuleSet st name = None
          then (AwaitingFetch name, st\<lparr>fetchCalls := fetchCalls st @ [name]\<rparr>)
          else (Returned (iconResult rd st name fieldId), st))"

definition resumeConditionalFormatRule ::
  "recordData \<Rightarrow> formatState \<Rightarrow> string \<Rightarrow> string \<Rightarrow> error + iconRuleSet option
     \<Rightarrow> formatStyle option \<times> formatState" where
  \<comment> \<open>the rest of the call once the Apex call has settled: a rejection is caught and gives
      \<open>null\<close>, a result is stored in the cache and evaluated\<close>
  "resumeConditionalFormatRule rd st name fieldId settled =
     (case settled of
        Inl e \<Rightarrow> (None, st)
      | Inr iconRules \<Rightarrow>
          (let st' = st\<lparr>iconFormatCache := (iconFormatCache st)(name \<mapsto> iconRules)\<rparr>
           in (iconResult rd st' name fieldId, st')))"

section \<open>The parsed layout\<close>

record fieldSlot =
  fvalue :: jsval
  isVisible :: jsval
  isRequired :: bool
  isReadOnly :: bool
  visibilityRule :: "visibilityRule option"
  conditionalFormatRuleset :: "string option"
  order :: int
  isBlankSpace :: bool

record layoutColumn =
  side :: string
  columnFields :: "fieldSlot obj"

record layoutSection =
  label :: string
  columns :: "layoutColumn obj"

type_synonym sections = "layoutSection obj"

subsection \<open>\<open>parseFlexiPageJson\<close>: the simple layout\<close>

record instanceProperty =
  propName :: string
  propValue :: jsval

record fieldInst =
  fieldItem :: string
  fieldInstanceProperties :: "instanceProperty list option"

record itemInst =
  fieldInstance :: "fieldInst option"

record flexiRegion =
  regionType :: string
  itemInstances :: "itemInst list option"

record flexiPageJson =
  flexiPageRegions :: "flexiRegion list option"

definition hasSimpleLayout :: "flexiRegion list \<Rightarrow> bool" where
  "hasSimpleLayout regions =
     list_ex (\<lambda>region. regionType region = ''Region'' \<and>
                (case itemInstances region of
                   None \<Rightarrow> False
                 | Some items \<Rightarrow> list_ex (\<lambda>item. fieldInstance item \<noteq> None) items))
       regions"

definition instanceValue :: "fieldInst \<Rightarrow> jsval" where
  \<comment> \<open>\<open>fieldInstanceProperties?.find((prop) => prop.name === "value")?.value || ""\<close>\<close>
  "instanceValue fi =
     (case fieldInstanceProperties fi of
        None \<Rightarrow> JStr []
      | Some props \<Rightarrow>
          (case find (\<lambda>prop. propName prop = ''value'') props of
             None \<Rightarrow> JStr []
           | Some prop \<Rightarrow> if truthy (propValue prop) then propValue prop else JStr []))"

definition simpleSlot :: "fieldInst \<Rightarrow> nat \<Rightarrow> fieldSlot" where
  "simpleSlot fi index =
     \<lparr>fvalue = instanceValue fi, isVisible = JBool True, isRequired = False, isReadOnly = False,
      visibilityRule = None, conditionalFormatRuleset = None, order = int index,
      isBlankSpace = False\<rparr>"

fun addItems :: "nat \<Rightarrow> itemInst list \<Rightarrow> fieldSlot obj \<Rightarrow> fieldSlot obj" where
  \<comment> \<open>\<open>region.itemInstances.forEach((item, index) => ...)\<close> from \<open>index\<close> on\<close>
  "addItems index [] fs = fs"
| "addItems index (item # rest) fs =
     addItems (Suc index) rest
       (case fieldInstance item of
          None \<Rightarrow> fs
        | Some fi \<Rightarrow> setKey (replaceFirst ''Record.'' [] (fieldItem fi)) (simpleSlot fi index) fs)"

fun addRegions :: "flexiRegion list \<Rightarrow> fieldSlot obj \<Rightarrow> fieldSlot obj" where
  \<comment> \<open>\<open>flexiPageJson.flexiPageRegions.forEach((region) => ...)\<close>\<close>
  "addRegions [] fs = fs"
| "addRegions (region # rest) fs =
     addRegions rest
       (if regionType region = ''Region'' then
          (case itemInstances region of None \<Rightarrow> fs | Some items \<Rightarrow> addItems 0 items fs)
        else fs)"

definition parseSimpleLayout :: "flexiRegion list \<Rightarrow> sections" where
  "parseSimpleLayout regions =
     [(''defaultSection'',
       \<lparr>label = ''Information'',
        columns = [(''defaultColumn'', \<lparr>side = ''left'', columnFields = addRegions regions []\<rparr>)]\<rparr>)]"

text \<open>
  The function as a whole. Its last branch, the three passes over a layout of sections and
  columns, is not part of this development: it is the parameter \<open>complexLayout\<close>.
\<close>

definition parseFlexiPageJson ::
  "(flexiRegion list \<Rightarrow> sections) \<Rightarrow> flexiPageJson option \<Rightarrow> sections" where
  "parseFlexiPageJson complexLayout flexiPage =
     (case flexiPage of
        None \<Rightarrow> []
      | Some doc \<Rightarrow>
          (case flexiPageRegions doc of
             None \<Rightarrow> []
           | Some regions \<Rightarrow>
               if hasSimpleLayout regions then parseSimpleLayout regions
               else complexLayout regions))"


section \<open>Excluded fields\<close>

definition readOnlyFields :: "string list" where
  "readOnlyFields =
     [''CreatedById'', ''LastModifiedById'', ''Id'', ''SystemModstamp'', ''CreatedDate'',
      ''LastModifiedDate'', ''OwnerId'']"

definition allExcludedFields :: "string \<Rightarrow> bool \<Rightarrow> string list" where
  \<comment> \<open>the getter, from the properties \<open>excludedFields\<close> and \<open>isReadOnly\<close> of the component\<close>
  "allExcludedFields excludedFields readOnly =
     map toLowerCase
       ((if excludedFields \<noteq> [] then map trim (split '','' excludedFields) else [])
        @ (if \<not> readOnly then readOnlyFields else []))"

definition jsonValue :: "jsval \<Rightarrow> jsval" where
  \<comment> \<open>a value after \<open>JSON.parse(JSON.stringify(...))\<close>: numbers that are not finite
      come back as \<open>null\<close>\<close>
  "jsonValue v =
     (if v = JNum NaN \<or> v = JNum PosInf \<or> v = JNum NegInf then JNull else v)"

definition jsonSlot :: "fieldSlot \<Rightarrow> fieldSlot" where
  "jsonSlot f = f\<lparr>fvalue := jsonValue (fvalue f)\<rparr>"

definition removeFromFields :: "string list \<Rightarrow> fieldSlot obj \<Rightarrow> fieldSlot obj" where
  \<comment> \<open>\<open>Object.keys(column.fields).forEach((fieldId) => ...)\<close>: the keys are listed
      first, then each excluded one is deleted\<close>
  "removeFromFields excluded fs =
     foldl (\<lambda>acc fieldId.
              if toLowerCase fieldId \<in> set excluded then deleteKey fieldId acc else acc)
       fs (map fst fs)"

definition removeExcludedFields :: "string \<Rightarrow> bool \<Rightarrow> sections option \<Rightarrow> sections" where
  "removeExcludedFields excludedFields readOnly parsedSections =
     (case parsedSections of
        None \<Rightarrow> []
      | Some secs \<Rightarrow>
          map (\<lambda>(sectionId, section).
                 (sectionId,
                  section\<lparr>columns :=
                    map (\<lambda>(columnId, column).
                           (columnId,
                            column\<lparr>columnFields :=
                              removeFromFields (allExcludedFields excludedFields readOnly)
                                (map (\<lambda>(fieldId, f). (fieldId, jsonSlot f)) (columnFields column))\<rparr>))
                      (columns section)\<rparr>))
            secs)"

section \<open>Default values\<close>

definition processedValue :: "string \<Rightarrow> jsval" where
  \<comment> \<open>\<open>true\<close> and \<open>false\<close> in any case become booleans, a numeric string a number\<close>
  "processedValue v =
     (if toLowerCase v = ''true'' then JBool True
      else if toLowerCase v = ''false'' then JBool False
      else if \<not> isNaN (JStr v) \<and> trim v \<noteq> [] then JNum (toNumber (JStr v))
      else JStr v)"

fun addPairs :: "string list \<Rightarrow> jsval obj \<times> jsval obj \<Rightarrow> jsval obj \<times> jsval obj" where
  \<comment> \<open>\<open>fieldPairs.forEach((pair) => ...)\<close> on \<open>result.original\<close> and
      \<open>result.lowercase\<close>\<close>
  "addPairs [] result = result"
| "addPairs (pair # rest) (original, lowercase) =
     (if trim pair = [] then addPairs rest (original, lowercase)
      else
        let items = map trim (split '':'' pair);
            fieldName = hd items;
            v = joinWith '':'' (tl items)
        in if fieldName \<noteq> [] then
             addPairs rest
               (setKey fieldName (processedValue v) original,
                setKey (toLowerCase fieldName) (processedValue v) lowercase)
           else addPairs rest (original, lowercase))"

definition parseDefaultValues :: "string \<Rightarrow> jsval obj \<times> jsval obj" where
  \<comment> \<open>the pair \<open>(original, lowercase)\<close> of the returned object\<close>
  "parseDefaultValues defaultValues =
     (if defaultValues = [] then ([], [])
      else
        let separator = (if includesStr defaultValues '';'' then '';'' else '','')
        in addPairs (split separator defaultValues) ([], []))"

definition isNewRecord :: "string option \<Rightarrow> bool" where
  \<comment> \<open>\<open>!this._recordId || this._recordId.length < 15\<close>\<close>
  "isNewRecord recordId = (case recordId of None \<Rightarrow> True | Some i \<Rightarrow> i = [] \<or> length i < 15)"

fun applyToFields ::
  "jsval obj \<Rightarrow> bool \<Rightarrow> fieldSlot obj \<Rightarrow> recordData \<Rightarrow> fieldSlot obj \<times> recordData" where
  \<comment> \<open>\<open>Object.entries(column.fields).forEach(([fieldId, field]) => ...)\<close>: a slot that
      gets its default keeps its place, and \<open>recordData\<close> gets the same value\<close>
  "applyToFields lookupValues new [] rd = ([], rd)"
| "applyToFields lookupValues new ((fieldId, field) # rest) rd =
     (if isBlankSpace field then
        (let (rest', rd') = applyToFields lookupValues new rest rd
         in ((fieldId, field) # rest', rd'))
      else
        (case map_of lookupValues (toLowerCase fieldId) of
           Some v \<Rightarrow>
             if new \<or> \<not> truthy (fvalue field) then
               (let (rest', rd') =
                      applyToFields lookupValues new rest (rd(toLowerCase fieldId \<mapsto> v))
                in ((fieldId, field\<lparr>fvalue := v\<rparr>) # rest', rd'))
             else
               (let (rest', rd') = applyToFields lookupValues new rest rd
                in ((fieldId, field) # rest', rd'))
         | None \<Rightarrow>
             (let (rest', rd') = applyToFields lookupValues new rest rd
              in ((fieldId, field) # rest', rd'))))"

fun applyToColumns ::
  "jsval obj \<Rightarrow> bool \<Rightarrow> layoutColumn obj \<Rightarrow> recordData \<Rightarrow> layoutColumn obj \<times> recordData" where
  "applyToColumns lookupValues new [] rd = ([], rd)"
| "applyToColumns lookupValues new ((columnId, column) # rest) rd =
     (let (fs', rd1) = applyToFields lookupValues new (columnFields column) rd;
          (rest', rd2) = applyToColumns lookupValues new rest rd1
      in ((columnId, column\<lparr>columnFields := fs'\<rparr>) # rest', rd2))"

fun applyToSections ::
  "jsval obj \<Rightarrow> bool \<Rightarrow> sections \<Rightarrow> recordData \<Rightarrow> sections \<times> recordData" where
  "applyToSections lookupValues new [] rd = ([], rd)"
| "applyToSections lookupValues new ((sectionId, section) # rest) rd =
     (let (cs', rd1) = applyToColumns lookupValues new (columns section) rd;
          (rest', rd2) = applyToSections lookupValues new rest rd1
      in ((sectionId, section\<lparr>columns := cs'\<rparr>) # rest', rd2))"

definition applyDefaultValues ::
  "string \<Rightarrow> string option \<Rightarrow> sections \<Rightarrow> recordData \<Rightarrow> sections \<times> recordData" where
  \<comment> \<open>the method changes \<open>parsedSections\<close> and \<open>this.recordData\<close> in place: both are
      returned. The event it sends in a flow is not modelled.\<close>
  "applyDefaultValues defaultValues recordId parsedSections rd =
     (let lookupValues = snd (parseDefaultValues defaultValues) in
      if lookupValues = [] then (parsedSections, rd)
      else applyToSections lookupValues (isNewRecord recordId) parsedSections rd)"

section \<open>The assembled sections\<close>

text \<open>
  \<open>processSections\<close>, as far as the structure of its result goes: which sections, columns
  and fields it keeps, in which order, and the value each enhanced field carries. Labels,
  field metadata, width classes and the styles of the conditional formats are left out.
\<close>

record enhancedField =
  fieldId :: string
  fieldIsBlankSpace :: bool
  fieldValue :: jsval

record processedColumn =
  fieldIds :: "string list"
  enhancedFields :: "enhancedField list"

record processedSection =
  sectionId :: string
  sectionColumns :: "processedColumn list"

definition visibleFields :: "layoutColumn \<Rightarrow> (string \<times> fieldSlot) list" where
  \<comment> \<open>\<open>Object.entries(column.fields).filter(...).sort(...)\<close>\<close>
  "visibleFields column =
     sortBy (\<lambda>a b. order (snd a) - order (snd b))
       (filter (\<lambda>entry. truthy (isVisible (snd entry))) (columnFields column))"

definition enhance :: "recordData \<Rightarrow> string \<times> fieldSlot \<Rightarrow> enhancedField" where
  "enhance rd entry =
     (if isBlankSpace (snd entry)
      then \<lparr>fieldId = fst entry, fieldIsBlankSpace = True, fieldValue = JUndefined\<rparr>
      else \<lparr>fieldId = fst entry, fieldIsBlankSpace = False,
            fieldValue = recordValue rd (toLowerCase (fst entry))\<rparr>)"

definition processColumn :: "recordData \<Rightarrow> layoutColumn \<Rightarrow> processedColumn" where
  "processColumn rd column =
     \<lparr>fieldIds = map fst (visibleFields column),
      enhancedFields = map (enhance rd) (visibleFields column)\<rparr>"

definition processSections :: "recordData \<Rightarrow> sections \<Rightarrow> processedSection list" where
  "processSections rd parsedSections =
     filter (\<lambda>s. sectionColumns s \<noteq> [])
       (map (\<lambda>(sectionFacetId, section).
               \<lparr>sectionId = sectionFacetId,
                sectionColumns =
                  filter (\<lambda>c. fieldIds c \<noteq> [])
                    (map (\<lambda>(columnId, column). processColumn rd column) (columns section))\<rparr>)
          parsedSections)"

definition assembledFieldIds :: "processedSection list \<Rightarrow> string list" where
  \<comment> \<open>every field identifier that stands in the assembled sections\<close>
  "assembledFieldIds secs = concat (map (\<lambda>s. concat (map fieldIds (sectionColumns s))) secs)"

definition assembledFields :: "processedSection list \<Rightarrow> enhancedField list" where
  \<comment> \<open>every enhanced field of the assembled sections, in their order\<close>
  "assembledFields secs =
     concat (map (\<lambda>s. concat (map enhancedFields (sectionColumns s))) secs)"

text \<open>
  The synchronous part of \<open>visibleFields.map(async ...)\<close>: each callback runs, in order, up
  to the first \<open>await\<close> of the call it makes to \<open>evaluateConditionalFormatRule\<close>.
\<close>

fun startFormatEvaluations ::
  "recordData \<Rightarrow> formatState \<Rightarrow> (string \<times> fieldSlot) list \<Rightarrow> evaluation list \<times> formatState" where
  "startFormatEvaluations rd st [] = ([], st)"
| "startFormatEvaluations rd st ((fid, field) # rest) =
     (if isBlankSpace field \<or> conditionalFormatRuleset field = None
         \<or> conditionalFormatRuleset field = Some []
      then startFormatEvaluations rd st rest
      else
        (let (ev, st1) = evaluateConditionalFormatRule rd st (conditionalFormatRuleset field) fid;
             (evs, st2) = startFormatEvaluations rd st1 rest
         in (ev # evs, st2)))"


section \<open>Visibility of the parsed fields and the two assemblies\<close>

fun visibilityOfFields :: "recordData \<Rightarrow> fieldSlot obj \<Rightarrow> error + fieldSlot obj" where
  \<comment> \<open>the innermost loop of \<open>calculateVisibility\<close>: an error of a rule evaluation
      ends the whole call\<close>
  "visibilityOfFields rd [] = Inr []"
| "visibilityOfFields rd ((fieldKey, field) # rest) =
     (if isBlankSpace field \<or> visibilityRule field = None then
        (case visibilityOfFields rd rest of
           Inl e \<Rightarrow> Inl e
         | Inr rest' \<Rightarrow> Inr ((fieldKey, field) # rest'))
      else
        (case evaluateVisibilityRule rd (visibilityRule field) of
           Inl e \<Rightarrow> Inl e
         | Inr v \<Rightarrow>
             (case visibilityOfFields rd rest of
                Inl e \<Rightarrow> Inl e
              | Inr rest' \<Rightarrow> Inr ((fieldKey, field\<lparr>isVisible := v\<rparr>) # rest'))))"

fun visibilityOfColumns :: "recordData \<Rightarrow> layoutColumn obj \<Rightarrow> error + layoutColumn obj" where
  "visibilityOfColumns rd [] = Inr []"
| "visibilityOfColumns rd ((columnKey, column) # rest) =
     (case visibilityOfFields rd (columnFields column) of
        Inl e \<Rightarrow> Inl e
      | Inr fs \<Rightarrow>
          (case visibilityOfColumns rd rest of
             Inl e \<Rightarrow> Inl e
           | Inr rest' \<Rightarrow> Inr ((columnKey, column\<lparr>columnFields := fs\<rparr>) # rest')))"

fun calculateVisibility :: "recordData \<Rightarrow> sections \<Rightarrow> error + sections" where
  "calculateVisibility rd [] = Inr []"
| "calculateVisibility rd ((sectionKey, section) # rest) =
     (case visibilityOfColumns rd (columns section) of
        Inl e \<Rightarrow> Inl e
      | Inr cs \<Rightarrow>
          (case calculateVisibility rd rest of
             Inl e \<Rightarrow> Inl e
           | Inr rest' \<Rightarrow> Inr ((sectionKey, section\<lparr>columns := cs\<rparr>) # rest')))"

text \<open>
  The component's properties that the assemblies read: \<open>defaultValues\<close>, \<open>recordId\<close>,
  \<open>excludedFields\<close> and \<open>isReadOnly\<close>. The form is in edit mode when \<open>isReadOnly\<close> is
  false.
\<close>

record properties =
  defaultValues :: string
  recordId :: "string option"
  excludedFields :: string
  readOnly :: bool

definition processFieldData ::
  "(flexiRegion list \<Rightarrow> sections) \<Rightarrow> properties \<Rightarrow> flexiPageJson option \<Rightarrow> recordData
     \<Rightarrow> error + processedSection list \<times> recordData" where
  \<comment> \<open>the assembly for a record that exists, run when its field values arrive: the new
      \<open>sections\<close> and \<open>recordData\<close>\<close>
  "processFieldData complexLayout props config rd =
     (let parsed = parseFlexiPageJson complexLayout config;
          withDefaults = applyDefaultValues (defaultValues props) (recordId props) parsed rd;
          kept = removeExcludedFields (excludedFields props) (readOnly props)
                   (Some (fst withDefaults))
      in case calculateVisibility (snd withDefaults) kept of
           Inl e \<Rightarrow> Inl e
         | Inr visible \<Rightarrow> Inr (processSections (snd withDefaults) visible, snd withDefaults))"

definition newRecordSections ::
  "(flexiRegion list \<Rightarrow> sections) \<Rightarrow> properties \<Rightarrow> flexiPageJson option
     \<Rightarrow> processedSection list \<times> recordData" where
  \<comment> \<open>the assembly of \<open>connectedCallback\<close> for a new record: \<open>recordData\<close> is a copy of
      the lower-case default values\<close>
  "newRecordSections complexLayout props config =
     (let rd = map_of (snd (parseDefaultValues (defaultValues props)))
      in (processSections rd
            (removeExcludedFields (excludedFields props) (readOnly props)
               (Some (parseFlexiPageJson complexLayout config))),
          rd))"

definition collectFields :: "string \<Rightarrow> bool \<Rightarrow> sections \<Rightarrow> string list" where
  \<comment> \<open>the field names handed to the wire adapter: \<open>[...new Set(fields)]\<close> keeps the
      first occurrence of each name\<close>
  "collectFields excluded ro parsedSections =
     rev (remdups (rev
       (concat (map (\<lambda>s. concat (map (\<lambda>c.
          map fst
            (filter (\<lambda>entry. toLowerCase (fst entry) \<notin> set (allExcludedFields excluded ro)
                              \<and> \<not> isBlankSpace (snd entry))
               (columnFields (snd c))))
          (columns (snd s)))) parsedSections))))"

definition layoutFieldIds :: "sections \<Rightarrow> string list" where
  \<comment> \<open>every key of every \<open>fields\<close> object of a parsed layout\<close>
  "layoutFieldIds secs =
     concat (map (\<lambda>s. concat (map (\<lambda>c. map fst (columnFields (snd c))) (columns (snd s)))) secs)"


section \<open>Default values as a merge\<close>

text \<open>
  For the statements about \<open>applyDefaultValues\<close>: the slots of a layout, whether a slot
  takes its default, and the slot after it did.
\<close>

definition layoutSlots :: "sections \<Rightarrow> (string \<times> fieldSlot) list" where
  "layoutSlots secs =
     concat (map (\<lambda>s. concat (map (\<lambda>c. columnFields (snd c)) (columns (snd s)))) secs)"

definition takesDefault :: "jsval obj \<Rightarrow> bool \<Rightarrow> string \<times> fieldSlot \<Rightarrow> bool" where
  "takesDefault lookupValues new entry =
     (\<not> isBlankSpace (snd entry) \<and> map_of lookupValues (toLowerCase (fst entry)) \<noteq> None
      \<and> (new \<or> \<not> truthy (fvalue (snd entry))))"

definition withDefault :: "jsval obj \<Rightarrow> bool \<Rightarrow> string \<times> fieldSlot \<Rightarrow> string \<times> fieldSlot" where
  "withDefault lookupValues new entry =
     (if takesDefault lookupValues new entry
      then (fst entry,
            (snd entry)\<lparr>fvalue := the (map_of lookupValues (toLowerCase (fst entry)))\<rparr>)
      else entry)"


section \<open>Example inputs\<close>

text \<open>
  A record with three text fields and three criteria on them whose outcomes are
  \<open>true\<close>, \<open>false\<close>, \<open>true\<close>.
\<close>

definition exampleRecord :: recordData where
  "exampleRecord =
     [''status__c'' \<mapsto> JStr ''New'', ''stage__c'' \<mapsto> JStr ''Open'', ''region__c'' \<mapsto> JStr ''EMEA'']"

definition exampleCriteria :: "criterion list" where
  "exampleCriteria =
     [\<lparr>leftValue = ''{!Record.Status__c}'', operator = ''EQUAL'', rightValue = JStr ''New''\<rparr>,
      \<lparr>leftValue = ''{!Record.Stage__c}'', operator = ''EQUAL'', rightValue = JStr ''Closed''\<rparr>,
      \<lparr>leftValue = ''{!Record.Region__c}'', operator = ''EQUAL'', rightValue = JStr ''EMEA''\<rparr>]"

text \<open>
  The two icon rules of scenario D, an icon rule with operator NE, a rule that carries no
  icon, and a rule whose operand is not numeric.
\<close>

definition ruleAbove50 :: iconRule where
  "ruleAbove50 =
     \<lparr>visibilityGroup = 1, visibilityRank = 1, ruleOperator = ''GT'', operand = JStr ''50'',
      icon = Some \<lparr>iconName = JStr ''utility:arrowup'', iconResourcePath = JStr ''/up.svg''\<rparr>,
      iconColor = JStr ''success''\<rparr>"

definition ruleUpTo50 :: iconRule where
  "ruleUpTo50 =
     \<lparr>visibilityGroup = 1, visibilityRank = 2, ruleOperator = ''LE'', operand = JStr ''50'',
      icon = Some \<lparr>iconName = JStr ''utility:arrowdown'', iconResourcePath = JStr ''/down.svg''\<rparr>,
      iconColor = JStr ''error''\<rparr>"

definition ruleNot5 :: iconRule where
  "ruleNot5 =
     \<lparr>visibilityGroup = 1, visibilityRank = 1, ruleOperator = ''NE'', operand = JStr ''5'',
      icon = Some \<lparr>iconName = JStr ''utility:info'', iconResourcePath = JStr ''/info.svg''\<rparr>,
      iconColor = JStr ''warning''\<rparr>"

definition ruleWithoutIcon :: iconRule where
  "ruleWithoutIcon =
     \<lparr>visibilityGroup = 1, visibilityRank = 1, ruleOperator = ''LE'', operand = JStr ''50'',
      icon = None, iconColor = JStr ''error''\<rparr>"

definition ruleBelowAbc :: iconRule where
  "ruleBelowAbc =
     \<lparr>visibilityGroup = 1, visibilityRank = 1, ruleOperator = ''LT'', operand = JStr ''abc'',
      icon = Some \<lparr>iconName = JStr ''utility:info'', iconResourcePath = JStr ''/info.svg''\<rparr>,
      iconColor = JStr ''warning''\<rparr>"

definition scoreRecord :: "jsval \<Rightarrow> recordData" where
  "scoreRecord v = [''score__c'' \<mapsto> v]"

text \<open>
  Scenario C: a simple layout with the regions R1 (items a, b) and R2 (item c).
\<close>

definition fieldItemInstance :: "string \<Rightarrow> itemInst" where
  "fieldItemInstance name =
     \<lparr>fieldInstance = Some \<lparr>fieldItem = ''Record.'' @ name, fieldInstanceProperties = None\<rparr>\<rparr>"

definition scenarioC :: "flexiRegion list" where
  "scenarioC =
     [\<lparr>regionType = ''Region'',
       itemInstances = Some [fieldItemInstance ''a'', fieldItemInstance ''b'']\<rparr>,
      \<lparr>regionType = ''Region'', itemInstances = Some [fieldItemInstance ''c'']\<rparr>]"

text \<open>Two visible fields of one column that name the same icon rule set.\<close>

definition iconSlot :: "string \<Rightarrow> fieldSlot" where
  "iconSlot name =
     \<lparr>fvalue = JStr [], isVisible = JBool True, isRequired = False, isReadOnly = False,
      visibilityRule = None, conditionalFormatRuleset = Some name, order = 0,
      isBlankSpace = False\<rparr>"

definition emptyFormatState :: formatState where
  "emptyFormatState = \<lparr>iconFormatCache = Map.empty, fetchCalls = []\<rparr>"

text \<open>
  A form in edit mode whose excluded fields are given in mixed case, on a simple layout that
  holds system fields in several spellings.
\<close>

definition editProperties :: properties where
  "editProperties =
     \<lparr>defaultValues = ''Amount__c:100;Stage__c:Prospecting'', recordId = None,
      excludedFields = ''STAGE__C, id'', readOnly = False\<rparr>"

definition exampleLayout :: "flexiPageJson option" where
  "exampleLayout =
     Some \<lparr>flexiPageRegions = Some
       [\<lparr>regionType = ''Region'',
         itemInstances = Some
           [fieldItemInstance ''Name'', fieldItemInstance ''Id'', fieldItemInstance ''OWNERID'',
            fieldItemInstance ''Amount__c'', fieldItemInstance ''Stage__c'',
            fieldItemInstance ''CreatedDate'']\<rparr>]\<rparr>"

definition noComplexLayout :: "flexiRegion list \<Rightarrow> sections" where
  "noComplexLayout regions = []"

text \<open>The parsed example layout, before any field is excluded.\<close>

definition exampleSections :: sections where
  "exampleSections = parseFlexiPageJson noComplexLayout exampleLayout"

text \<open>
  A form in edit mode with the default values of scenario B and no excluded fields.
\<close>

definition defaultsProperties :: properties where
  "defaultsProperties =
     \<lparr>defaultValues = ''Amount__c:100;Stage__c:Prospecting'', recordId = None,
      excludedFields = [], readOnly = False\<rparr>"




section \<open>Properties of the visibility rules\<close>

subsection \<open>Helper facts\<close>

lemma exampleCriteria_results:
  "mapCriteria exampleRecord exampleCriteria = Inr [JBool True, JBool False, JBool True]"
  by code_simp

lemma scenarioE_expression:
  "filterExpression ''1 AND (2 OR 3)'' [JBool True, JBool False, JBool True]
     = ''true && (false || true)''"
  by code_simp

lemma scenarioE_raises:
  "evaluateBooleanExpression ''true && (false || true)''
     = Inl (Error ''Unexpected value in boolean expression: (0'')"
  by code_simp

lemma evalAndParts_malformed:
  "list_ex malformed (map trim ps) \<Longrightarrow> \<exists>e. evalAndParts b ps = Inl e"
  by (induction ps arbitrary: b) (auto simp: malformed_def Let_def)

lemma evalAndParts_wellformed:
  "\<not> list_ex malformed (map trim ps) \<Longrightarrow> evalAndParts b ps = Inr (b \<and> allOnes (map trim ps))"
  by (induction ps arbitrary: b) (auto simp: malformed_def allOnes_def Let_def)

lemma allOnes_not_malformed: "allOnes ops \<Longrightarrow> \<not> list_ex malformed ops"
  by (induction ops) (auto simp: allOnes_def malformed_def)

lemma evalAndParts_operandsOf:
  assumes "\<not> list_ex malformed (operandsOf p)"
  shows "evalAndParts True (split ''&&'' (trim p)) = Inr (allOnes (operandsOf p))"
  using assms evalAndParts_wellformed[of "split ''&&'' (trim p)" True]
  by (simp add: operandsOf_def)

lemma evalOrParts_returns:
  "\<not> list_ex (list_ex malformed) (takeWhile (\<lambda>ops. \<not> allOnes ops) (map operandsOf ps))
   \<Longrightarrow> evalOrParts ps = Inr (list_ex allOnes (map operandsOf ps))"
proof (induction ps)
  case Nil
  then show ?case by simp
next
  case (Cons p ps)
  show ?case
  proof (cases "allOnes (operandsOf p)")
    case True
    then have "\<not> list_ex malformed (operandsOf p)" by (rule allOnes_not_malformed)
    then have "evalAndParts True (split ''&&'' (trim p)) = Inr (allOnes (operandsOf p))"
      by (rule evalAndParts_operandsOf)
    with True show ?thesis by simp
  next
    case False
    with Cons.prems have nm: "\<not> list_ex malformed (operandsOf p)"
      and rest: "\<not> list_ex (list_ex malformed)
                     (takeWhile (\<lambda>ops. \<not> allOnes ops) (map operandsOf ps))"
      by simp_all
    from nm have "evalAndParts True (split ''&&'' (trim p)) = Inr (allOnes (operandsOf p))"
      by (rule evalAndParts_operandsOf)
    with False Cons.IH[OF rest] show ?thesis by simp
  qed
qed

lemma evalOrParts_raises:
  "list_ex (list_ex malformed) (takeWhile (\<lambda>ops. \<not> allOnes ops) (map operandsOf ps))
   \<Longrightarrow> \<exists>e. evalOrParts ps = Inl e"
proof (induction ps)
  case Nil
  then show ?case by simp
next
  case (Cons p ps)
  show ?case
  proof (cases "list_ex malformed (operandsOf p)")
    case True
    then obtain e where "evalAndParts True (split ''&&'' (trim p)) = Inl e"
      using evalAndParts_malformed[of "split ''&&'' (trim p)" True] by (auto simp: operandsOf_def)
    then show ?thesis by simp
  next
    case False
    then have e: "evalAndParts True (split ''&&'' (trim p)) = Inr (allOnes (operandsOf p))"
      by (rule evalAndParts_operandsOf)
    show ?thesis
    proof (cases "allOnes (operandsOf p)")
      case True
      with Cons.prems show ?thesis by simp
    next
      case nall: False
      with Cons.prems False
      have "list_ex (list_ex malformed) (takeWhile (\<lambda>ops. \<not> allOnes ops) (map operandsOf ps))"
        by simp
      from Cons.IH[OF this] e nall show ?thesis by simp
    qed
  qed
qed

lemma evaluateBooleanExpression_returns:
  "\<not> list_ex (list_ex malformed) (takeWhile (\<lambda>ops. \<not> allOnes ops) (orOperands x))
   \<Longrightarrow> evaluateBooleanExpression x = Inr (list_ex allOnes (orOperands x))"
  unfolding evaluateBooleanExpression_def orOperands_def by (rule evalOrParts_returns)

lemma evaluateBooleanExpression_raises:
  "list_ex (list_ex malformed) (takeWhile (\<lambda>ops. \<not> allOnes ops) (orOperands x))
   \<Longrightarrow> \<exists>e. evaluateBooleanExpression x = Inl e"
  unfolding evaluateBooleanExpression_def orOperands_def by (rule evalOrParts_raises)

lemma numLess_NaN_right: "numLess x NaN = None"
  by (cases x) simp_all

lemma jsLess_undefined_left: "jsLess JUndefined b = None"
  by (cases b) simp_all

lemma jsLess_undefined_right: "jsLess a JUndefined = None"
  by (cases a) (simp_all add: numLess_NaN_right)

subsection \<open>Scenario E\<close>

text \<open>
  C1 (amended). For a visibility rule whose booleanFilter is \<open>1 AND (2 OR 3)\<close> and whose
  three criteria evaluate to true, false, true, the visibility evaluation returns false, not
  true: the substituted expression \<open>true && (false || true)\<close>, that is
  \<open>1 && (0 || 1)\<close>, is cut at \<open>||\<close> and then at \<open>&&\<close> without regard to the
  parentheses, the operand \<open>(0\<close> is neither 1 nor 0, the evaluator raises, and the rule
  evaluation catches the error and answers false.
\<close>

theorem scenarioE_not_visible:
  assumes "criteria r = Some cs"
    and "mapCriteria rd cs = Inr [JBool True, JBool False, JBool True]"
    and "booleanFilter r = Some ''1 AND (2 OR 3)''"
  shows "evaluateVisibilityRule rd (Some r) = Inr (JBool False)"
  using assms
  by (simp add: evaluateVisibilityRule_def scenarioE_expression scenarioE_raises)

text \<open>The theorem at the example record and its three criteria.\<close>

theorem scenarioE_not_visible_witness:
  "mapCriteria exampleRecord exampleCriteria = Inr [JBool True, JBool False, JBool True]
   \<and> evaluateVisibilityRule exampleRecord
        (Some \<lparr>criteria = Some exampleCriteria, booleanFilter = Some ''1 AND (2 OR 3)''\<rparr>)
      = Inr (JBool False)"
proof -
  have "evaluateVisibilityRule exampleRecord
          (Some \<lparr>criteria = Some exampleCriteria, booleanFilter = Some ''1 AND (2 OR 3)''\<rparr>)
        = Inr (JBool False)"
    by (rule scenarioE_not_visible[where cs = exampleCriteria])
       (simp_all add: exampleCriteria_results)
  with exampleCriteria_results show ?thesis by simp
qed

text \<open>
  The claim as the specification states it (the result is true) fails at the example
  record.
\<close>

theorem scenarioE_counterexample:
  "mapCriteria exampleRecord exampleCriteria = Inr [JBool True, JBool False, JBool True]
   \<and> evaluateVisibilityRule exampleRecord
        (Some \<lparr>criteria = Some exampleCriteria, booleanFilter = Some ''1 AND (2 OR 3)''\<rparr>)
      \<noteq> Inr (JBool True)"
  by code_simp

subsection \<open>Operands that are neither 1 nor 0\<close>

text \<open>
  C2 (amended). For every visibility rule with a booleanFilter whose criteria evaluate, the
  rule evaluation returns a boolean and never the evaluator's error. The result is false
  whenever an operand that is neither 1 nor 0 stands in an OR-part that comes before the
  first OR-part made of 1s only (or when there is no such part); it is true exactly when an
  OR-part made of 1s only exists and no such operand stands before it: the evaluator returns
  at that part and never reads what follows.
\<close>

theorem boolean_filter_result:
  assumes "criteria r = Some cs"
    and "mapCriteria rd cs = Inr results"
    and "booleanFilter r = Some f"
    and "f \<noteq> []"
  shows "evaluateVisibilityRule rd (Some r) =
           Inr (JBool (\<not> list_ex (list_ex malformed)
                           (takeWhile (\<lambda>ops. \<not> allOnes ops)
                              (orOperands (filterExpression f results)))
                       \<and> list_ex allOnes (orOperands (filterExpression f results))))"
proof (cases "list_ex (list_ex malformed)
                (takeWhile (\<lambda>ops. \<not> allOnes ops) (orOperands (filterExpression f results)))")
  case True
  then obtain e where "evaluateBooleanExpression (filterExpression f results) = Inl e"
    using evaluateBooleanExpression_raises by blast
  with True assms show ?thesis by (simp add: evaluateVisibilityRule_def)
next
  case False
  then have "evaluateBooleanExpression (filterExpression f results)
               = Inr (list_ex allOnes (orOperands (filterExpression f results)))"
    by (rule evaluateBooleanExpression_returns)
  with False assms show ?thesis by (simp add: evaluateVisibilityRule_def)
qed

text \<open>
  The theorem at the filter \<open>(1 OR 2) AND 3\<close>: the operand \<open>(1\<close> stands in the first
  OR-part, and the result is false.
\<close>

theorem boolean_filter_result_witness:
  "orOperands (filterExpression ''(1 OR 2) AND 3'' [JBool True, JBool False, JBool True])
     = [[''(1''], [''0)'', ''1'']]
   \<and> evaluateVisibilityRule exampleRecord
        (Some \<lparr>criteria = Some exampleCriteria, booleanFilter = Some ''(1 OR 2) AND 3''\<rparr>)
      = Inr (JBool False)"
proof -
  have ops: "orOperands (filterExpression ''(1 OR 2) AND 3'' [JBool True, JBool False, JBool True])
               = [[''(1''], [''0)'', ''1'']]"
    by code_simp
  have "evaluateVisibilityRule exampleRecord
          (Some \<lparr>criteria = Some exampleCriteria, booleanFilter = Some ''(1 OR 2) AND 3''\<rparr>)
        = Inr (JBool (\<not> list_ex (list_ex malformed)
                           (takeWhile (\<lambda>ops. \<not> allOnes ops) [[''(1''], [''0)'', ''1'']])
                      \<and> list_ex allOnes [[''(1''], [''0)'', ''1'']]))"
    using boolean_filter_result[of "\<lparr>criteria = Some exampleCriteria,
              booleanFilter = Some ''(1 OR 2) AND 3''\<rparr>" exampleCriteria exampleRecord
            "[JBool True, JBool False, JBool True]" "''(1 OR 2) AND 3''"]
    by (simp add: exampleCriteria_results ops)
  then show ?thesis by (simp add: ops malformed_def allOnes_def)
qed

text \<open>
  The claim as the specification states it fails at the filter \<open>1 OR (2 AND 3)\<close>: the
  substituted expression holds the operands \<open>(0\<close> and \<open>1)\<close>, and the field is visible.
\<close>

theorem fail_closed_counterexample:
  "orOperands (filterExpression ''1 OR (2 AND 3)'' [JBool True, JBool False, JBool True])
     = [[''1''], [''(0'', ''1)'']]
   \<and> malformed ''(0''
   \<and> evaluateVisibilityRule exampleRecord
        (Some \<lparr>criteria = Some exampleCriteria, booleanFilter = Some ''1 OR (2 AND 3)''\<rparr>)
      = Inr (JBool True)"
  by code_simp


subsection \<open>Rules without a filter\<close>





subsection \<open>Criteria on a missing field\<close>

text \<open>
  C6 (amended). For every visibility criterion whose left field has no value in the record
  data (the left value is \<open>undefined\<close>): the outcome is false for GT, GE, LT and LE; for
  EQUAL it is false and for NE it is true provided the criterion has a rightValue (with
  \<open>undefined\<close> on both sides EQUAL is true and NE is false); for CONTAINS the outcome is
  falsy: it is the value \<open>undefined\<close>, not the boolean false.
\<close>

theorem missing_field_outcome:
  assumes "recordValue rd (leftFieldApiName c) = JUndefined"
  shows "(operator c \<in> {''GT'', ''GE'', ''LT'', ''LE''} \<longrightarrow> conditionMet rd c = Inr (JBool False))
       \<and> (operator c = ''EQUAL'' \<longrightarrow> conditionMet rd c = Inr (JBool (rightValue c = JUndefined)))
       \<and> (operator c = ''NE'' \<longrightarrow> conditionMet rd c = Inr (JBool (rightValue c \<noteq> JUndefined)))
       \<and> (operator c = ''CONTAINS'' \<longrightarrow> conditionMet rd c = Inr JUndefined
             \<and> \<not> truthy JUndefined)"
proof (intro conjI impI)
  assume "operator c \<in> {''GT'', ''GE'', ''LT'', ''LE''}"
  with assms show "conditionMet rd c = Inr (JBool False)"
    by (auto simp: conditionMet_def jsGT_def jsGE_def jsLT_def jsLE_def
                   jsLess_undefined_left jsLess_undefined_right numLess_NaN_right)
next
  assume "operator c = ''EQUAL''"
  with assms show "conditionMet rd c = Inr (JBool (rightValue c = JUndefined))"
    by (auto simp: conditionMet_def strictEquals_def)
next
  assume "operator c = ''NE''"
  with assms show "conditionMet rd c = Inr (JBool (rightValue c \<noteq> JUndefined))"
    by (auto simp: conditionMet_def strictEquals_def)
next
  assume "operator c = ''CONTAINS''"
  with assms show "conditionMet rd c = Inr JUndefined"
    by (simp add: conditionMet_def)
next
  show "\<not> truthy JUndefined" by simp
qed

text \<open>The theorem at the empty record, for GT, EQUAL, NE and CONTAINS.\<close>

theorem missing_field_outcome_witness:
  "recordValue Map.empty (leftFieldApiName \<lparr>leftValue = ''{!Record.Amount__c}'', operator = ''GT'',
       rightValue = JStr ''5''\<rparr>) = JUndefined
   \<and> conditionMet Map.empty \<lparr>leftValue = ''{!Record.Amount__c}'', operator = ''GT'',
        rightValue = JStr ''5''\<rparr> = Inr (JBool False)
   \<and> conditionMet Map.empty \<lparr>leftValue = ''{!Record.Amount__c}'', operator = ''EQUAL'',
        rightValue = JStr ''5''\<rparr> = Inr (JBool False)
   \<and> conditionMet Map.empty \<lparr>leftValue = ''{!Record.Amount__c}'', operator = ''NE'',
        rightValue = JStr ''5''\<rparr> = Inr (JBool True)
   \<and> conditionMet Map.empty \<lparr>leftValue = ''{!Record.Amount__c}'', operator = ''CONTAINS'',
        rightValue = JStr ''5''\<rparr> = Inr JUndefined"
  using missing_field_outcome[of Map.empty "\<lparr>leftValue = ''{!Record.Amount__c}'',
          operator = ''GT'', rightValue = JStr ''5''\<rparr>"]
        missing_field_outcome[of Map.empty "\<lparr>leftValue = ''{!Record.Amount__c}'',
          operator = ''EQUAL'', rightValue = JStr ''5''\<rparr>"]
        missing_field_outcome[of Map.empty "\<lparr>leftValue = ''{!Record.Amount__c}'',
          operator = ''NE'', rightValue = JStr ''5''\<rparr>"]
        missing_field_outcome[of Map.empty "\<lparr>leftValue = ''{!Record.Amount__c}'',
          operator = ''CONTAINS'', rightValue = JStr ''5''\<rparr>"]
  by (simp add: recordValue_def)

text \<open>
  The claim as the specification states it fails for CONTAINS: the outcome is not the
  boolean false. The difference shows in a filter: in \<open>1 OR 2\<close> the outcome is
  written into the expression as \<open>undefined\<close>, the evaluator raises on it, and the
  field stays hidden although the second criterion holds. It also fails for EQUAL on a
  criterion without rightValue, which holds.
\<close>

theorem missing_field_contains_counterexample:
  "conditionMet Map.empty \<lparr>leftValue = ''{!Record.Amount__c}'', operator = ''CONTAINS'',
      rightValue = JStr ''5''\<rparr> \<noteq> Inr (JBool False)
   \<and> conditionMet Map.empty \<lparr>leftValue = ''{!Record.Amount__c}'', operator = ''EQUAL'',
        rightValue = JUndefined\<rparr> = Inr (JBool True)
   \<and> filterExpression ''1 OR 2'' [JUndefined, JBool True] = ''undefined || true''
   \<and> evaluateVisibilityRule Map.empty
        (Some \<lparr>criteria = Some
                 [\<lparr>leftValue = ''{!Record.Amount__c}'', operator = ''CONTAINS'',
                    rightValue = JStr ''5''\<rparr>,
                  \<lparr>leftValue = ''{!Record.Amount__c}'', operator = ''NE'',
                    rightValue = JStr ''5''\<rparr>],
               booleanFilter = Some ''1 OR 2''\<rparr>) = Inr (JBool False)"
  by code_simp


section \<open>Properties of the icon rules\<close>

lemma compareRules_le:
  "compareRules a b \<le> 0 \<longleftrightarrow> groupAndRank a \<le> groupAndRank b"
  by (auto simp: compareRules_def groupAndRank_def less_eq_prod_def)

lemma insertBy_compareRules:
  "insertBy compareRules x ys = insort_key groupAndRank x ys"
  by (induction ys) (simp_all add: compareRules_le)

lemma sortBy_compareRules:
  "sortBy compareRules rs = sort_key groupAndRank rs"
proof -
  have "insertBy compareRules = insort_key groupAndRank"
    by (intro ext) (rule insertBy_compareRules)
  then show ?thesis by (simp add: sortBy_def sort_key_def)
qed

lemma firstMatchingIcon_find:
  "firstMatchingIcon v rs =
     Option.bind (find (\<lambda>rule. ruleMatches v rule \<and> icon rule \<noteq> None) rs) descriptorOf"
  by (induction rs) (auto simp: descriptorOf_def split: option.splits)

text \<open>
  C7 (amended). For a field whose current value is neither null nor undefined, icon rule
  evaluation sorts the rules ascending by (visibilityGroup, visibilityRank), rules with equal
  keys staying in their order, and returns the icon descriptor of the first rule in that
  order whose comparison matches and which carries an icon, and null when there is no such
  rule. In the comparison the field's value and the operand are each turned into a number
  when \<open>isNaN\<close> is false of it, and compared as given otherwise.
\<close>

theorem icon_rules_first_match:
  assumes "recordValue rd (toLowerCase fid) = v"
    and "v \<noteq> JNull"
    and "v \<noteq> JUndefined"
  shows "evaluateIconRules rd (Some rs) fid =
           Option.bind
             (find (\<lambda>rule. ruleMatches (numericIfPossible v) rule \<and> icon rule \<noteq> None)
                (sort_key groupAndRank rs))
             descriptorOf"
proof (cases rs)
  case Nil
  then show ?thesis by (simp add: evaluateIconRules_def)
next
  case (Cons r rest)
  with assms show ?thesis
    by (simp add: evaluateIconRules_def firstMatchingIcon_find sortBy_compareRules
             del: sort_key_simps)
qed

text \<open>
  Scenario D, by the theorem: the rules (group 1, rank 1, GT 50) and (group 1, rank 2,
  LE 50), given in the other order, and the field value 30 yield the second rule's
  descriptor.
\<close>

theorem icon_rules_first_match_witness:
  "recordValue (scoreRecord (JNum (Fin 30))) (toLowerCase ''Score__c'') = JNum (Fin 30)
   \<and> sort_key groupAndRank [ruleUpTo50, ruleAbove50] = [ruleAbove50, ruleUpTo50]
   \<and> evaluateIconRules (scoreRecord (JNum (Fin 30))) (Some [ruleUpTo50, ruleAbove50]) ''Score__c''
      = Some (IconStyle (JStr ''utility:arrowdown'') (JStr ''/down.svg'') (JStr ''error''))"
proof -
  have v: "recordValue (scoreRecord (JNum (Fin 30))) (toLowerCase ''Score__c'') = JNum (Fin 30)"
    by code_simp
  have s: "sort_key groupAndRank [ruleUpTo50, ruleAbove50] = [ruleAbove50, ruleUpTo50]"
    by (simp add: groupAndRank_def ruleUpTo50_def ruleAbove50_def)
  have m1: "\<not> ruleMatches (numericIfPossible (JNum (Fin 30))) ruleAbove50"
    by code_simp
  have m2: "ruleMatches (numericIfPossible (JNum (Fin 30))) ruleUpTo50"
    by code_simp
  have d: "descriptorOf ruleUpTo50
             = Some (IconStyle (JStr ''utility:arrowdown'') (JStr ''/down.svg'') (JStr ''error''))"
    by (simp add: descriptorOf_def ruleUpTo50_def)
  have i: "icon ruleUpTo50 \<noteq> None"
    by (simp add: ruleUpTo50_def)
  have "evaluateIconRules (scoreRecord (JNum (Fin 30))) (Some [ruleUpTo50, ruleAbove50]) ''Score__c''
          = Some (IconStyle (JStr ''utility:arrowdown'') (JStr ''/down.svg'') (JStr ''error''))"
    using icon_rules_first_match[OF v, of "[ruleUpTo50, ruleAbove50]"] s m1 m2 d i
    by (simp del: sort_key_simps)
  with v s show ?thesis by simp
qed

text \<open>
  The claim as the specification states it fails for a field whose value is null: the
  comparison of the rule NE 5 matches (null counts as the number 0), and the evaluation
  returns null, not the rule's descriptor. Two more differences: a matching rule without
  icon is passed over in favour of a later one, and a numeric field value is turned into a
  number also when the operand is not numeric, so that the text \<open>30\<close>, which is below
  \<open>abc\<close> as given, does not match LT \<open>abc\<close>.
\<close>

theorem icon_rules_counterexample:
  "recordValue (scoreRecord JNull) (toLowerCase ''Score__c'') = JNull
   \<and> ruleMatches (numericIfPossible JNull) ruleNot5
   \<and> descriptorOf ruleNot5
      = Some (IconStyle (JStr ''utility:info'') (JStr ''/info.svg'') (JStr ''warning''))
   \<and> evaluateIconRules (scoreRecord JNull) (Some [ruleNot5]) ''Score__c'' = None
   \<and> ruleMatches (numericIfPossible (JNum (Fin 30))) ruleWithoutIcon
   \<and> evaluateIconRules (scoreRecord (JNum (Fin 30))) (Some [ruleWithoutIcon, ruleUpTo50])
        ''Score__c''
      = Some (IconStyle (JStr ''utility:arrowdown'') (JStr ''/down.svg'') (JStr ''error''))
   \<and> jsLT (JStr ''30'') (operand ruleBelowAbc)
   \<and> evaluateIconRules (scoreRecord (JStr ''30'')) (Some [ruleBelowAbc]) ''Score__c'' = None"
  by code_simp

text \<open>
  C10. For every icon rule list and every field whose current value in the record data is
  null or undefined, icon rule evaluation returns null, whatever the rules are: none of them
  is evaluated, not even a rule with operator NE whose comparison would match.
\<close>

theorem icon_rules_no_value:
  assumes "recordValue rd (toLowerCase fid) = JNull
           \<or> recordValue rd (toLowerCase fid) = JUndefined"
  shows "evaluateIconRules rd rs fid = None"
  using assms by (auto simp: evaluateIconRules_def split: option.splits)

text \<open>
  The theorem at a field that the record data does not hold, with the rule NE 5: its
  comparison with \<open>undefined\<close> would match.
\<close>

theorem icon_rules_no_value_witness:
  "recordValue Map.empty (toLowerCase ''Score__c'') = JUndefined
   \<and> ruleMatches (numericIfPossible JUndefined) ruleNot5
   \<and> evaluateIconRules Map.empty (Some [ruleNot5]) ''Score__c'' = None"
proof -
  have v: "recordValue Map.empty (toLowerCase ''Score__c'') = JUndefined"
    by (simp add: recordValue_def)
  have m: "ruleMatches (numericIfPossible JUndefined) ruleNot5"
    by code_simp
  from v have "evaluateIconRules Map.empty (Some [ruleNot5]) ''Score__c'' = None"
    by (intro icon_rules_no_value) simp
  with v m show ?thesis by simp
qed


section \<open>The simple layout\<close>

lemma simple_layout_sections:
  assumes "hasSimpleLayout regions"
  shows "parseFlexiPageJson complexLayout (Some \<lparr>flexiPageRegions = Some regions\<rparr>)
           = [(''defaultSection'',
               \<lparr>label = ''Information'',
                columns = [(''defaultColumn'',
                            \<lparr>side = ''left'', columnFields = addRegions regions []\<rparr>)]\<rparr>)]"
  using assms by (simp add: parseFlexiPageJson_def parseSimpleLayout_def)

lemma scenarioC_simple: "hasSimpleLayout scenarioC"
  by code_simp

lemma scenarioC_fields:
  "map (\<lambda>entry. (fst entry, order (snd entry))) (addRegions scenarioC [])
     = [(''a'', 0), (''b'', 1), (''c'', 0)]"
  by code_simp

lemma scenarioC_visible:
  "map fst (visibleFields \<lparr>side = ''left'', columnFields = addRegions scenarioC []\<rparr>)
     = [''a'', ''c'', ''b'']"
  by code_simp

text \<open>
  C3, at scenario C. The fields of the regions R1 (a, b) and R2 (c) do collapse into the one
  section \<open>defaultSection\<close> with the column \<open>defaultColumn\<close> and the label
  \<open>Information\<close>, but the order of a slot is the index of its item within its own region:
  the parser gives a:0, b:1, c:0, where the specification says a:0, b:1, c:2. Sorted by
  order, the column then shows a, c, b.
\<close>

theorem simple_layout_order_restarts:
  "parseFlexiPageJson complexLayout (Some \<lparr>flexiPageRegions = Some scenarioC\<rparr>)
     = [(''defaultSection'',
         \<lparr>label = ''Information'',
          columns = [(''defaultColumn'',
                      \<lparr>side = ''left'', columnFields = addRegions scenarioC []\<rparr>)]\<rparr>)]
   \<and> map (\<lambda>entry. (fst entry, order (snd entry))) (addRegions scenarioC [])
       = [(''a'', 0), (''b'', 1), (''c'', 0)]
   \<and> map fst (visibleFields \<lparr>side = ''left'', columnFields = addRegions scenarioC []\<rparr>)
       = [''a'', ''c'', ''b'']"
  using simple_layout_sections[OF scenarioC_simple] scenarioC_fields scenarioC_visible
  by simp

section \<open>Fetching icon rule sets\<close>

lemma fetchCalls_cachedRuleSet [simp]:
  "cachedRuleSet (st\<lparr>fetchCalls := calls\<rparr>) name = cachedRuleSet st name"
  by (simp add: cachedRuleSet_def)

text \<open>
  C9 (amended). Two format evaluations for rule set names that have no cached entry, begun
  one after the other before either fetch has settled, each issue an external fetch of their
  own, also when both name the same rule set: the cache holds results only, and no request in
  flight is shared. Evaluations for different names fetch concurrently. A fetch that settles
  with a rule set stores it in the cache, and an evaluation begun after that issues no fetch
  and answers from the cached set.
\<close>

theorem one_fetch_per_uncached_evaluation:
  assumes "a \<noteq> []" and "b \<noteq> []"
  shows "(cachedRuleSet st a = None \<and> cachedRuleSet st b = None \<longrightarrow>
            (\<exists>st1 st2.
               evaluateConditionalFormatRule rd st (Some a) fidA = (AwaitingFetch a, st1)
               \<and> evaluateConditionalFormatRule rd st1 (Some b) fidB = (AwaitingFetch b, st2)
               \<and> fetchCalls st2 = fetchCalls st @ [a, b]
               \<and> iconFormatCache st2 = iconFormatCache st))
       \<and> (\<forall>ruleSet st'.
            snd (resumeConditionalFormatRule rd st a fidA (Inr (Some ruleSet))) = st' \<longrightarrow>
              cachedRuleSet st' a = Some ruleSet
              \<and> fetchCalls st' = fetchCalls st
              \<and> evaluateConditionalFormatRule rd st' (Some a) fidB
                  = (Returned (iconResult rd st' a fidB), st'))"
proof (intro conjI impI allI)
  assume miss: "cachedRuleSet st a = None \<and> cachedRuleSet st b = None"
  define st1 where "st1 = st\<lparr>fetchCalls := fetchCalls st @ [a]\<rparr>"
  define st2 where "st2 = st1\<lparr>fetchCalls := fetchCalls st1 @ [b]\<rparr>"
  have 1: "evaluateConditionalFormatRule rd st (Some a) fidA = (AwaitingFetch a, st1)"
    using miss assms by (simp add: evaluateConditionalFormatRule_def st1_def)
  have "cachedRuleSet st1 b = None"
    using miss by (simp add: st1_def)
  then have 2: "evaluateConditionalFormatRule rd st1 (Some b) fidB = (AwaitingFetch b, st2)"
    using assms by (simp add: evaluateConditionalFormatRule_def st2_def)
  have 3: "fetchCalls st2 = fetchCalls st @ [a, b]"
    by (simp add: st2_def st1_def)
  have 4: "iconFormatCache st2 = iconFormatCache st"
    by (simp add: st2_def st1_def)
  from 1 2 3 4
  show "\<exists>st1 st2.
          evaluateConditionalFormatRule rd st (Some a) fidA = (AwaitingFetch a, st1)
          \<and> evaluateConditionalFormatRule rd st1 (Some b) fidB = (AwaitingFetch b, st2)
          \<and> fetchCalls st2 = fetchCalls st @ [a, b]
          \<and> iconFormatCache st2 = iconFormatCache st"
    by blast
next
  fix ruleSet st'
  assume r: "snd (resumeConditionalFormatRule rd st a fidA (Inr (Some ruleSet))) = st'"
  then have st': "st' = st\<lparr>iconFormatCache := (iconFormatCache st)(a \<mapsto> Some ruleSet)\<rparr>"
    by (simp add: resumeConditionalFormatRule_def Let_def)
  show c: "cachedRuleSet st' a = Some ruleSet"
    by (simp add: st' cachedRuleSet_def)
  show "fetchCalls st' = fetchCalls st"
    by (simp add: st')
  from c assms
  show "evaluateConditionalFormatRule rd st' (Some a) fidB
          = (Returned (iconResult rd st' a fidB), st')"
    by (simp add: evaluateConditionalFormatRule_def)
qed

text \<open>
  The theorem for two fields that both name the rule set \<open>Score_Icons\<close>, from an
  empty cache: two fetches of \<open>Score_Icons\<close> are issued.
\<close>

theorem one_fetch_per_uncached_evaluation_witness:
  "cachedRuleSet emptyFormatState ''Score_Icons'' = None
   \<and> (\<exists>st1 st2.
        evaluateConditionalFormatRule Map.empty emptyFormatState (Some ''Score_Icons'') ''Score__c''
          = (AwaitingFetch ''Score_Icons'', st1)
        \<and> evaluateConditionalFormatRule Map.empty st1 (Some ''Score_Icons'') ''Rating__c''
            = (AwaitingFetch ''Score_Icons'', st2)
        \<and> fetchCalls st2 = [''Score_Icons'', ''Score_Icons''])"
proof -
  have miss: "cachedRuleSet emptyFormatState ''Score_Icons'' = None"
    by (simp add: cachedRuleSet_def emptyFormatState_def)
  have "fetchCalls emptyFormatState = []"
    by (simp add: emptyFormatState_def)
  with miss show ?thesis
    using one_fetch_per_uncached_evaluation[of "''Score_Icons''" "''Score_Icons''"
            emptyFormatState Map.empty "''Score__c''" "''Rating__c''"]
    by auto
qed

text \<open>
  The claim as the specification states it fails when \<open>processSections\<close> starts the
  evaluations of two visible fields of a column that name the same rule set while the cache
  is empty: both evaluations wait for a fetch of their own, and two calls are made.
\<close>

theorem single_fetch_counterexample:
  "startFormatEvaluations Map.empty emptyFormatState
     [(''Score__c'', iconSlot ''Score_Icons''), (''Rating__c'', iconSlot ''Score_Icons'')]
   = ([AwaitingFetch ''Score_Icons'', AwaitingFetch ''Score_Icons''],
      \<lparr>iconFormatCache = Map.empty, fetchCalls = [''Score_Icons'', ''Score_Icons'']\<rparr>)"
  by (simp add: iconSlot_def emptyFormatState_def evaluateConditionalFormatRule_def
                cachedRuleSet_def)


section \<open>Excluded fields in the assembled sections\<close>

lemma foldl_deleteKey:
  "foldl (\<lambda>acc k. if P k then deleteKey k acc else acc) fs ks
     = filter (\<lambda>e. \<not> (fst e \<in> set ks \<and> P (fst e))) fs"
proof (induction ks arbitrary: fs)
  case Nil
  then show ?case by simp
next
  case (Cons k ks)
  show ?case
  proof (cases "P k")
    case True
    then show ?thesis
      by (simp add: Cons.IH deleteKey_def) (rule filter_cong, auto)
  next
    case False
    then show ?thesis
      by (simp add: Cons.IH) (rule filter_cong, auto)
  qed
qed

lemma removeFromFields_filter:
  "removeFromFields ex fs = filter (\<lambda>e. toLowerCase (fst e) \<notin> set ex) fs"
  unfolding removeFromFields_def foldl_deleteKey
  by (rule filter_cong) auto

lemma removeExcludedFields_keys:
  assumes "k \<in> set (layoutFieldIds (removeExcludedFields ex ro (Some secs)))"
  shows "toLowerCase k \<notin> set (allExcludedFields ex ro)"
  using assms
  by (auto simp: layoutFieldIds_def removeExcludedFields_def removeFromFields_filter
           split: prod.splits)

lemma readOnlyFields_excluded:
  "set (map toLowerCase readOnlyFields) \<subseteq> set (allExcludedFields ex False)"
  by (auto simp: allExcludedFields_def)

lemma visibilityOfFields_keys:
  "visibilityOfFields rd fs = Inr fs' \<Longrightarrow> map fst fs' = map fst fs"
  by (induction fs arbitrary: fs') (auto split: if_splits sum.splits)

lemma visibilityOfColumns_keys:
  "visibilityOfColumns rd cs = Inr cs' \<Longrightarrow>
     concat (map (\<lambda>c. map fst (columnFields (snd c))) cs')
       = concat (map (\<lambda>c. map fst (columnFields (snd c))) cs)"
  by (induction cs arbitrary: cs') (auto split: sum.splits simp: visibilityOfFields_keys)

lemma calculateVisibility_keys:
  "calculateVisibility rd secs = Inr secs' \<Longrightarrow> layoutFieldIds secs' = layoutFieldIds secs"
  unfolding layoutFieldIds_def
  by (induction secs arbitrary: secs') (auto split: sum.splits simp: visibilityOfColumns_keys)

lemma set_insertBy: "set (insertBy cmp x ys) = insert x (set ys)"
  by (induction ys) auto

lemma set_sortBy: "set (sortBy cmp xs) = set xs"
  unfolding sortBy_def by (induction xs) (simp_all add: set_insertBy)

lemma visibleFields_subset: "set (visibleFields column) \<subseteq> set (columnFields column)"
  by (auto simp: visibleFields_def set_sortBy)

lemma assembledFieldIds_subset:
  "set (assembledFieldIds (processSections rd secs)) \<subseteq> set (layoutFieldIds secs)"
proof
  fix k
  assume "k \<in> set (assembledFieldIds (processSections rd secs))"
  then obtain s c where s: "s \<in> set secs" and c: "c \<in> set (columns (snd s))"
    and k: "k \<in> set (fieldIds (processColumn rd (snd c)))"
    by (auto simp: assembledFieldIds_def processSections_def split: prod.splits)
  from k have "k \<in> fst ` set (columnFields (snd c))"
    using visibleFields_subset[of "snd c"] by (auto simp: processColumn_def)
  with s c show "k \<in> set (layoutFieldIds secs)"
    by (auto simp: layoutFieldIds_def)
qed

lemma not_system_field:
  assumes "toLowerCase k \<notin> set (map toLowerCase readOnlyFields)"
  shows "k \<notin> set readOnlyFields"
  using assms by auto

lemma collectFields_keys:
  assumes "k \<in> set (collectFields ex ro secs)"
  shows "toLowerCase k \<notin> set (allExcludedFields ex ro)"
  using assms by (auto simp: collectFields_def)

text \<open>
  C4. For every assembly performed in edit mode (\<open>isReadOnly\<close> false), that of a new record
  as well as that of a record that exists, no field of the assembled sections is one of the
  seven system fields CreatedById, LastModifiedById, Id, SystemModstamp, CreatedDate,
  LastModifiedDate, OwnerId, in whatever letter case the layout spells it, and whatever the
  excludedFields property holds. The same holds of the list of field names that
  \<open>collectFields\<close> draws from a layout.
\<close>

theorem system_fields_never_assembled:
  assumes "readOnly props = False"
  shows "(\<forall>k \<in> set (assembledFieldIds (fst (newRecordSections complexLayout props config))).
            toLowerCase k \<notin> set (map toLowerCase readOnlyFields) \<and> k \<notin> set readOnlyFields)
       \<and> (\<forall>secs rd'. processFieldData complexLayout props config rd = Inr (secs, rd') \<longrightarrow>
            (\<forall>k \<in> set (assembledFieldIds secs).
               toLowerCase k \<notin> set (map toLowerCase readOnlyFields) \<and> k \<notin> set readOnlyFields))
       \<and> (\<forall>k \<in> set (collectFields (excludedFields props) (readOnly props) parsed).
            toLowerCase k \<notin> set (map toLowerCase readOnlyFields) \<and> k \<notin> set readOnlyFields)"
proof (intro conjI allI impI ballI)
  fix k
  assume "k \<in> set (assembledFieldIds (fst (newRecordSections complexLayout props config)))"
  then have "k \<in> set (layoutFieldIds
                (removeExcludedFields (excludedFields props) (readOnly props)
                   (Some (parseFlexiPageJson complexLayout config))))"
    using assembledFieldIds_subset by (auto simp: newRecordSections_def Let_def)
  then have "toLowerCase k \<notin> set (allExcludedFields (excludedFields props) False)"
    using removeExcludedFields_keys assms by metis
  then show low: "toLowerCase k \<notin> set (map toLowerCase readOnlyFields)"
    using readOnlyFields_excluded by blast
  then show "k \<notin> set readOnlyFields" by (rule not_system_field)
next
  fix secs rd' k
  assume run: "processFieldData complexLayout props config rd = Inr (secs, rd')"
    and k: "k \<in> set (assembledFieldIds secs)"
  define withDefaults where
    "withDefaults = applyDefaultValues (defaultValues props) (recordId props)
                      (parseFlexiPageJson complexLayout config) rd"
  define kept where
    "kept = removeExcludedFields (excludedFields props) (readOnly props) (Some (fst withDefaults))"
  from run obtain visible where v: "calculateVisibility (snd withDefaults) kept = Inr visible"
    and secs: "secs = processSections (snd withDefaults) visible"
    by (auto simp: processFieldData_def Let_def withDefaults_def kept_def split: sum.splits)
  from k secs have "k \<in> set (layoutFieldIds visible)"
    using assembledFieldIds_subset by blast
  with v have "k \<in> set (layoutFieldIds kept)"
    by (simp add: calculateVisibility_keys)
  then have "toLowerCase k \<notin> set (allExcludedFields (excludedFields props) False)"
    unfolding kept_def using removeExcludedFields_keys assms by metis
  then have low: "toLowerCase k \<notin> set (map toLowerCase readOnlyFields)"
    using readOnlyFields_excluded by blast
  then show "toLowerCase k \<notin> set (map toLowerCase readOnlyFields)" .
  from low show "k \<notin> set readOnlyFields" by (rule not_system_field)
next
  fix k
  assume "k \<in> set (collectFields (excludedFields props) (readOnly props) parsed)"
  then have "toLowerCase k \<notin> set (allExcludedFields (excludedFields props) False)"
    using collectFields_keys assms by metis
  then show low: "toLowerCase k \<notin> set (map toLowerCase readOnlyFields)"
    using readOnlyFields_excluded by blast
  then show "k \<notin> set readOnlyFields" by (rule not_system_field)
qed

text \<open>
  The theorem at a layout that holds Id, OWNERID and CreatedDate, with the excluded fields
  \<open>STAGE__C, id\<close>: the assembled fields are Name and Amount__c.
\<close>

theorem system_fields_never_assembled_witness:
  "readOnly editProperties = False
   \<and> assembledFieldIds (fst (newRecordSections noComplexLayout editProperties exampleLayout))
      = [''Name'', ''Amount__c'']
   \<and> ''Id'' \<notin> set (assembledFieldIds
                      (fst (newRecordSections noComplexLayout editProperties exampleLayout)))
   \<and> toLowerCase ''OWNERID'' \<in> set (map toLowerCase readOnlyFields)
   \<and> ''OWNERID'' \<notin> set (assembledFieldIds
                      (fst (newRecordSections noComplexLayout editProperties exampleLayout)))"
proof -
  have edit: "readOnly editProperties = False"
    by (simp add: editProperties_def)
  have ids: "assembledFieldIds (fst (newRecordSections noComplexLayout editProperties exampleLayout))
               = [''Name'', ''Amount__c'']"
    by code_simp
  have low: "toLowerCase ''OWNERID'' \<in> set (map toLowerCase readOnlyFields)"
    by code_simp
  have sys: "''Id'' \<in> set readOnlyFields"
    by (simp add: readOnlyFields_def)
  from system_fields_never_assembled[OF edit, of noComplexLayout exampleLayout] sys low
  have "''Id'' \<notin> set (assembledFieldIds
                        (fst (newRecordSections noComplexLayout editProperties exampleLayout)))"
    and "''OWNERID'' \<notin> set (assembledFieldIds
                        (fst (newRecordSections noComplexLayout editProperties exampleLayout)))"
    by blast+
  with edit ids low show ?thesis by simp
qed


section \<open>Default values\<close>

lemma applyToFields_Cons:
  "applyToFields lk new (e # rest) rd =
     (let rd1 = (if takesDefault lk new e
                 then rd(toLowerCase (fst e) \<mapsto> the (map_of lk (toLowerCase (fst e))))
                 else rd)
      in (withDefault lk new e # fst (applyToFields lk new rest rd1),
          snd (applyToFields lk new rest rd1)))"
proof (cases e)
  case (Pair k f)
  show ?thesis
  proof (cases "map_of lk (toLowerCase k)")
    case None
    then show ?thesis
      by (simp add: Pair takesDefault_def withDefault_def case_prod_unfold Let_def)
  next
    case (Some v)
    then show ?thesis
      by (simp add: Pair takesDefault_def withDefault_def case_prod_unfold Let_def)
  qed
qed

lemma applyToFields_slots:
  "fst (applyToFields lk new fs rd) = map (withDefault lk new) fs"
proof (induction fs arbitrary: rd)
  case Nil
  then show ?case by simp
next
  case (Cons e fs)
  show ?case
    unfolding applyToFields_Cons by (simp add: Let_def Cons.IH del: applyToFields.simps)
qed

lemma applyToFields_record:
  "snd (applyToFields lk new fs rd) k =
     (if \<exists>e \<in> set fs. takesDefault lk new e \<and> toLowerCase (fst e) = k
      then map_of lk k else rd k)"
proof (induction fs arbitrary: rd)
  case Nil
  then show ?case by simp
next
  case (Cons e fs)
  define rd1 where
    "rd1 = (if takesDefault lk new e
            then rd(toLowerCase (fst e) \<mapsto> the (map_of lk (toLowerCase (fst e))))
            else rd)"
  have step: "snd (applyToFields lk new (e # fs) rd) k = snd (applyToFields lk new fs rd1) k"
    unfolding applyToFields_Cons by (simp add: Let_def rd1_def del: applyToFields.simps)
  have rd1: "rd1 k = (if takesDefault lk new e \<and> toLowerCase (fst e) = k
                      then map_of lk k else rd k)"
    by (auto simp: rd1_def takesDefault_def)
  show ?case
    unfolding step Cons.IH[of rd1] rd1 by auto
qed

lemma applyToColumns_slots:
  "fst (applyToColumns lk new cs rd) =
     map (\<lambda>c. (fst c, (snd c)\<lparr>columnFields := map (withDefault lk new) (columnFields (snd c))\<rparr>)) cs"
proof (induction cs arbitrary: rd)
  case Nil
  then show ?case by simp
next
  case (Cons c cs)
  obtain ck col where c: "c = (ck, col)" by (cases c)
  show ?case
    by (simp add: c case_prod_unfold Let_def Cons.IH applyToFields_slots)
qed

lemma applyToColumns_record:
  "snd (applyToColumns lk new cs rd) k =
     (if \<exists>c \<in> set cs. \<exists>e \<in> set (columnFields (snd c)).
           takesDefault lk new e \<and> toLowerCase (fst e) = k
      then map_of lk k else rd k)"
proof (induction cs arbitrary: rd)
  case Nil
  then show ?case by simp
next
  case (Cons c cs)
  obtain ck col where c: "c = (ck, col)" by (cases c)
  show ?case
    by (auto simp: c case_prod_unfold Let_def Cons.IH applyToFields_record)
qed

lemma applyToSections_slots:
  "fst (applyToSections lk new secs rd) =
     map (\<lambda>s. (fst s,
                (snd s)\<lparr>columns :=
                   map (\<lambda>c. (fst c, (snd c)\<lparr>columnFields :=
                                       map (withDefault lk new) (columnFields (snd c))\<rparr>))
                     (columns (snd s))\<rparr>))
       secs"
proof (induction secs arbitrary: rd)
  case Nil
  then show ?case by simp
next
  case (Cons s secs)
  obtain sk sec where s: "s = (sk, sec)" by (cases s)
  show ?case
    by (simp add: s case_prod_unfold Let_def Cons.IH applyToColumns_slots)
qed

lemma layoutSlots_Cons:
  "layoutSlots (s # secs)
     = concat (map (\<lambda>c. columnFields (snd c)) (columns (snd s))) @ layoutSlots secs"
  by (simp add: layoutSlots_def)

lemma applyToSections_record:
  "snd (applyToSections lk new secs rd) k =
     (if \<exists>e \<in> set (layoutSlots secs). takesDefault lk new e \<and> toLowerCase (fst e) = k
      then map_of lk k else rd k)"
proof (induction secs arbitrary: rd)
  case Nil
  then show ?case by (simp add: layoutSlots_def)
next
  case (Cons s secs)
  obtain sk sec where s: "s = (sk, sec)" by (cases s)
  define rd1 where "rd1 = snd (applyToColumns lk new (columns sec) rd)"
  have step: "snd (applyToSections lk new (s # secs) rd) k
                = snd (applyToSections lk new secs rd1) k"
    by (simp add: s rd1_def case_prod_unfold Let_def)
  have here: "(\<exists>c \<in> set (columns sec). \<exists>e \<in> set (columnFields (snd c)).
                 takesDefault lk new e \<and> toLowerCase (fst e) = k)
              \<longleftrightarrow> (\<exists>e \<in> set (concat (map (\<lambda>c. columnFields (snd c)) (columns sec))).
                     takesDefault lk new e \<and> toLowerCase (fst e) = k)"
    by auto
  have rd1: "rd1 k = (if \<exists>e \<in> set (concat (map (\<lambda>c. columnFields (snd c)) (columns sec))).
                           takesDefault lk new e \<and> toLowerCase (fst e) = k
                      then map_of lk k else rd k)"
    unfolding rd1_def applyToColumns_record here ..
  show ?case
    unfolding step Cons.IH[of rd1] rd1 layoutSlots_Cons
    by (auto simp: s)
qed

lemma layoutSlots_applyToSections:
  "layoutSlots (fst (applyToSections lk new secs rd)) = map (withDefault lk new) (layoutSlots secs)"
  by (simp add: applyToSections_slots layoutSlots_def map_concat comp_def)

lemma layoutFieldIds_layoutSlots: "layoutFieldIds secs = map fst (layoutSlots secs)"
  by (simp add: layoutFieldIds_def layoutSlots_def map_concat comp_def)

lemma fst_withDefault [simp]: "fst (withDefault lk new e) = fst e"
  by (simp add: withDefault_def)

lemma isBlankSpace_withDefault [simp]:
  "isBlankSpace (snd (withDefault lk new e)) = isBlankSpace (snd e)"
  by (simp add: withDefault_def)

lemma scenarioB_parse:
  "parseDefaultValues ''Amount__c:100;Stage__c:Prospecting''
     = ([(''Amount__c'', JNum (Fin 100)), (''Stage__c'', JStr ''Prospecting'')],
        [(''amount__c'', JNum (Fin 100)), (''stage__c'', JStr ''Prospecting'')])"
  by code_simp

lemma enhancedFields_of_processSections:
  assumes "ps \<in> set (processSections rd secs)"
    and "pc \<in> set (sectionColumns ps)"
    and "ef \<in> set (enhancedFields pc)"
  shows "\<exists>e. ef = enhance rd e"
proof -
  from assms(1,2) obtain column where "pc = processColumn rd column"
    by (auto simp: processSections_def split: prod.splits)
  with assms(3) show ?thesis
    by (auto simp: processColumn_def)
qed

lemma visibleFields_set:
  "set (visibleFields column)
     = {e \<in> set (columnFields column). truthy (isVisible (snd e))}"
  by (auto simp: visibleFields_def set_sortBy)

lemma assembledFields_source:
  assumes "ef \<in> set (assembledFields (processSections rd secs))"
  shows "\<exists>e \<in> set (layoutSlots secs). ef = enhance rd e"
proof -
  from assms obtain s c where s: "s \<in> set secs" and c: "c \<in> set (columns (snd s))"
    and ef: "ef \<in> set (enhancedFields (processColumn rd (snd c)))"
    by (auto simp: assembledFields_def processSections_def split: prod.splits)
  from ef obtain e where e: "e \<in> set (columnFields (snd c))" and "ef = enhance rd e"
    by (auto simp: processColumn_def visibleFields_set)
  moreover from s c e have "e \<in> set (layoutSlots secs)"
    by (auto simp: layoutSlots_def)
  ultimately show ?thesis by blast
qed

lemma visible_slot_assembled:
  assumes "e \<in> set (layoutSlots secs)"
    and "truthy (isVisible (snd e))"
  shows "enhance rd e \<in> set (assembledFields (processSections rd secs))"
proof -
  from assms(1) obtain s c where s: "s \<in> set secs" and c: "c \<in> set (columns (snd s))"
    and e: "e \<in> set (columnFields (snd c))"
    by (auto simp: layoutSlots_def)
  define pc where "pc = processColumn rd (snd c)"
  define ps where
    "ps = \<lparr>sectionId = fst s,
            sectionColumns = filter (\<lambda>c. fieldIds c \<noteq> [])
              (map (\<lambda>c. processColumn rd (snd c)) (columns (snd s)))\<rparr>"
  from e assms(2) have v: "e \<in> set (visibleFields (snd c))"
    by (simp add: visibleFields_set)
  then have ef: "enhance rd e \<in> set (enhancedFields pc)"
    by (simp add: pc_def processColumn_def)
  from v have "fst e \<in> set (fieldIds pc)"
    by (simp add: pc_def processColumn_def)
  then have "fieldIds pc \<noteq> []" by auto
  with c have pc: "pc \<in> set (sectionColumns ps)"
    by (auto simp: ps_def pc_def)
  then have "sectionColumns ps \<noteq> []" by auto
  with s have "ps \<in> set (processSections rd secs)"
    by (auto simp: processSections_def ps_def case_prod_unfold intro!: image_eqI[of _ _ s])
  with pc ef show ?thesis
    by (auto simp: assembledFields_def)
qed

lemma visibilityOfFields_shape:
  "visibilityOfFields rd fs = Inr fs' \<Longrightarrow>
     map (\<lambda>e. (fst e, isBlankSpace (snd e))) fs' = map (\<lambda>e. (fst e, isBlankSpace (snd e))) fs"
  by (induction fs arbitrary: fs') (auto split: if_splits sum.splits)

lemma visibilityOfColumns_shape:
  "visibilityOfColumns rd cs = Inr cs' \<Longrightarrow>
     concat (map (\<lambda>c. map (\<lambda>e. (fst e, isBlankSpace (snd e))) (columnFields (snd c))) cs')
       = concat (map (\<lambda>c. map (\<lambda>e. (fst e, isBlankSpace (snd e))) (columnFields (snd c))) cs)"
  by (induction cs arbitrary: cs') (auto split: sum.splits simp: visibilityOfFields_shape)

lemma calculateVisibility_shape:
  "calculateVisibility rd secs = Inr secs' \<Longrightarrow>
     map (\<lambda>e. (fst e, isBlankSpace (snd e))) (layoutSlots secs')
       = map (\<lambda>e. (fst e, isBlankSpace (snd e))) (layoutSlots secs)"
  unfolding layoutSlots_def map_concat
  by (induction secs arbitrary: secs')
     (auto split: sum.splits simp: visibilityOfColumns_shape comp_def map_concat)

lemma removeExcludedFields_shape:
  assumes "e \<in> set (layoutSlots (removeExcludedFields ex ro (Some secs)))"
  shows "\<exists>e0 \<in> set (layoutSlots secs).
           fst e0 = fst e \<and> isBlankSpace (snd e0) = isBlankSpace (snd e)"
  using assms
  by (auto simp: layoutSlots_def removeExcludedFields_def removeFromFields_filter jsonSlot_def
           split: prod.splits) force

lemma removeExcludedFields_keeps:
  assumes "e \<in> set (layoutSlots secs)"
    and "toLowerCase (fst e) \<notin> set (allExcludedFields ex ro)"
  shows "(fst e, jsonSlot (snd e)) \<in> set (layoutSlots (removeExcludedFields ex ro (Some secs)))"
proof -
  from assms(1) obtain s c where s: "s \<in> set secs" and c: "c \<in> set (columns (snd s))"
    and e: "e \<in> set (columnFields (snd c))"
    by (auto simp: layoutSlots_def)
  from e assms(2)
  have "(fst e, jsonSlot (snd e))
          \<in> set (removeFromFields (allExcludedFields ex ro)
                   (map (\<lambda>(k, f). (k, jsonSlot f)) (columnFields (snd c))))"
    by (force simp: removeFromFields_filter)
  with s c show ?thesis
    by (force simp: layoutSlots_def removeExcludedFields_def case_prod_unfold)
qed

lemma default_reaches_slot_and_record:
  assumes "applyToSections lk True secs rd = (secs', rd')"
    and "e' \<in> set (layoutSlots secs')"
    and "\<not> isBlankSpace (snd e')"
    and "map_of lk (toLowerCase (fst e')) = Some v"
  shows "fvalue (snd e') = v \<and> rd' (toLowerCase (fst e')) = Some v"
proof -
  have slots: "layoutSlots secs' = map (withDefault lk True) (layoutSlots secs)"
    using layoutSlots_applyToSections[of lk True secs rd] assms(1) by simp
  with assms(2) obtain e where e: "e \<in> set (layoutSlots secs)"
    and e'e: "e' = withDefault lk True e" by auto
  from assms(3,4) e'e have t: "takesDefault lk True e"
    by (simp add: takesDefault_def)
  from t e'e assms(4) have 1: "fvalue (snd e') = v"
    by (simp add: withDefault_def)
  from e t e'e assms(4) have 2: "rd' (toLowerCase (fst e')) = Some v"
    using applyToSections_record[of lk True secs rd "toLowerCase (fst e')"] assms(1) by auto
  from 1 2 show ?thesis by simp
qed

lemma processFieldData_default:
  assumes new: "isNewRecord (recordId props)"
    and lk: "snd (parseDefaultValues (defaultValues props)) = lk" "lk \<noteq> []"
    and run: "processFieldData complexLayout props config rd0 = Inr (out, rdOut)"
    and ef: "ef \<in> set (assembledFields out)" "\<not> fieldIsBlankSpace ef"
    and v: "map_of lk (toLowerCase (fieldId ef)) = Some v"
  shows "fieldValue ef = v \<and> rdOut (toLowerCase (fieldId ef)) = Some v"
proof -
  define parsed where "parsed = parseFlexiPageJson complexLayout config"
  define withDefaults where
    "withDefaults = applyDefaultValues (defaultValues props) (recordId props) parsed rd0"
  define kept where
    "kept = removeExcludedFields (excludedFields props) (readOnly props) (Some (fst withDefaults))"
  have c: "(case calculateVisibility (snd withDefaults) kept of
           Inl e \<Rightarrow> Inl e
         | Inr visible \<Rightarrow> Inr (processSections (snd withDefaults) visible, snd withDefaults))
        = Inr (out, rdOut)"
    using run unfolding processFieldData_def Let_def withDefaults_def kept_def parsed_def .
  then obtain visible where vis: "calculateVisibility (snd withDefaults) kept = Inr visible"
    by (cases "calculateVisibility (snd withDefaults) kept") simp_all
  from c have out: "processSections (snd withDefaults) visible = out"
    and rdOut: "snd withDefaults = rdOut"
    unfolding vis by auto
  have "withDefaults = applyToSections lk True parsed rd0"
    using new lk by (simp add: withDefaults_def applyDefaultValues_def Let_def)
  with rdOut have app: "applyToSections lk True parsed rd0 = (fst withDefaults, rdOut)"
    by (metis prod.collapse)
  from ef(1) out rdOut have "ef \<in> set (assembledFields (processSections rdOut visible))"
    by simp
  then obtain e where e: "e \<in> set (layoutSlots visible)"
    and efe: "ef = enhance rdOut e"
    using assembledFields_source by blast
  from efe ef(2) have nb: "\<not> isBlankSpace (snd e)" and id: "fieldId ef = fst e"
    and val: "fieldValue ef = recordValue rdOut (toLowerCase (fst e))"
    by (auto simp: enhance_def split: if_splits)
  from e have "(fst e, isBlankSpace (snd e))
                 \<in> set (map (\<lambda>e. (fst e, isBlankSpace (snd e))) (layoutSlots visible))"
    by force
  then have "(fst e, isBlankSpace (snd e))
                 \<in> set (map (\<lambda>e. (fst e, isBlankSpace (snd e))) (layoutSlots kept))"
    using calculateVisibility_shape[OF vis] by simp
  then obtain e1 where e1: "e1 \<in> set (layoutSlots kept)" and "fst e1 = fst e"
    and "isBlankSpace (snd e1) = isBlankSpace (snd e)"
    by auto
  moreover from e1 obtain e0 where "e0 \<in> set (layoutSlots (fst withDefaults))"
    and "fst e0 = fst e1" and "isBlankSpace (snd e0) = isBlankSpace (snd e1)"
    unfolding kept_def using removeExcludedFields_shape by blast
  ultimately obtain e0 where e0: "e0 \<in> set (layoutSlots (fst withDefaults))"
    and k0: "fst e0 = fst e" and b0: "isBlankSpace (snd e0) = isBlankSpace (snd e)"
    by auto
  from default_reaches_slot_and_record[OF app e0] nb b0 k0 v id
  have "rdOut (toLowerCase (fst e)) = Some v" by simp
  with val id show ?thesis by (simp add: recordValue_def)
qed

text \<open>
  C8. With the defaultValues string \<open>Amount__c:100;Stage__c:Prospecting\<close> and a new
  record: the string parses to the number 100 for Amount__c and the string Prospecting for
  Stage__c, under the original keys and under the lower-case keys. \<open>applyDefaultValues\<close>
  keeps every slot of the layout, gives every field slot named Amount__c (in any letter
  case) the value 100 and every one named Stage__c the value Prospecting, and writes both
  values into the record data under \<open>amount__c\<close> and \<open>stage__c\<close>, from where the
  assembled field takes its value. In the assembly of \<open>connectedCallback\<close> for a new
  record the record data is the lower-case map itself, the assembled fields named
  Amount__c and Stage__c carry 100 and Prospecting, and every visible field slot of these
  names that the layout holds after the exclusion is assembled with that value. In the
  assembly of \<open>processFieldData\<close>, which applies the default values, the assembled fields of
  these names carry 100 and Prospecting as well, and so does the record data.
\<close>

theorem default_values_new_record:
  assumes "isNewRecord rid"
    and "applyDefaultValues ''Amount__c:100;Stage__c:Prospecting'' rid secs rd = (secs', rd')"
    and "defaultValues props = ''Amount__c:100;Stage__c:Prospecting''"
  shows "parseDefaultValues ''Amount__c:100;Stage__c:Prospecting''
           = ([(''Amount__c'', JNum (Fin 100)), (''Stage__c'', JStr ''Prospecting'')],
              [(''amount__c'', JNum (Fin 100)), (''stage__c'', JStr ''Prospecting'')])
       \<and> layoutFieldIds secs' = layoutFieldIds secs
       \<and> (\<forall>e \<in> set (layoutSlots secs'). \<not> isBlankSpace (snd e) \<longrightarrow>
            (toLowerCase (fst e) = ''amount__c'' \<longrightarrow>
               fvalue (snd e) = JNum (Fin 100) \<and> rd' ''amount__c'' = Some (JNum (Fin 100))
               \<and> fieldValue (enhance rd' e) = JNum (Fin 100))
            \<and> (toLowerCase (fst e) = ''stage__c'' \<longrightarrow>
               fvalue (snd e) = JStr ''Prospecting'' \<and> rd' ''stage__c'' = Some (JStr ''Prospecting'')
               \<and> fieldValue (enhance rd' e) = JStr ''Prospecting''))
       \<and> snd (newRecordSections complexLayout props config) ''amount__c'' = Some (JNum (Fin 100))
       \<and> snd (newRecordSections complexLayout props config) ''stage__c''
            = Some (JStr ''Prospecting'')
       \<and> (\<forall>ps \<in> set (fst (newRecordSections complexLayout props config)).
           \<forall>pc \<in> set (sectionColumns ps). \<forall>ef \<in> set (enhancedFields pc).
             \<not> fieldIsBlankSpace ef \<longrightarrow>
               (toLowerCase (fieldId ef) = ''amount__c'' \<longrightarrow> fieldValue ef = JNum (Fin 100))
               \<and> (toLowerCase (fieldId ef) = ''stage__c'' \<longrightarrow>
                    fieldValue ef = JStr ''Prospecting''))
       \<and> (\<forall>e \<in> set (layoutSlots
                        (removeExcludedFields (excludedFields props) (readOnly props)
                           (Some (parseFlexiPageJson complexLayout config)))).
            truthy (isVisible (snd e)) \<and> \<not> isBlankSpace (snd e) \<longrightarrow>
              (toLowerCase (fst e) = ''amount__c'' \<longrightarrow>
                 \<lparr>fieldId = fst e, fieldIsBlankSpace = False, fieldValue = JNum (Fin 100)\<rparr>
                   \<in> set (assembledFields (fst (newRecordSections complexLayout props config))))
              \<and> (toLowerCase (fst e) = ''stage__c'' \<longrightarrow>
                 \<lparr>fieldId = fst e, fieldIsBlankSpace = False, fieldValue = JStr ''Prospecting''\<rparr>
                   \<in> set (assembledFields (fst (newRecordSections complexLayout props config)))))
       \<and> (isNewRecord (recordId props) \<longrightarrow>
            (\<forall>out rdOut. processFieldData complexLayout props config rd0 = Inr (out, rdOut) \<longrightarrow>
               (\<forall>ef \<in> set (assembledFields out). \<not> fieldIsBlankSpace ef \<longrightarrow>
                  (toLowerCase (fieldId ef) = ''amount__c'' \<longrightarrow>
                     fieldValue ef = JNum (Fin 100) \<and> rdOut ''amount__c'' = Some (JNum (Fin 100)))
                  \<and> (toLowerCase (fieldId ef) = ''stage__c'' \<longrightarrow>
                     fieldValue ef = JStr ''Prospecting''
                     \<and> rdOut ''stage__c'' = Some (JStr ''Prospecting'')))))"
proof -
  define lk where "lk = [(''amount__c'', JNum (Fin 100)), (''stage__c'', JStr ''Prospecting'')]"
  have lk: "snd (parseDefaultValues ''Amount__c:100;Stage__c:Prospecting'') = lk"
    by (simp add: scenarioB_parse lk_def)
  have run: "applyToSections lk True secs rd = (secs', rd')"
    using assms(1,2) by (simp add: applyDefaultValues_def lk) (simp add: lk_def)
  have slots: "layoutSlots secs' = map (withDefault lk True) (layoutSlots secs)"
    using layoutSlots_applyToSections[of lk True secs rd] run by simp
  have rd': "rd' k = (if \<exists>e \<in> set (layoutSlots secs). takesDefault lk True e
                                  \<and> toLowerCase (fst e) = k
                      then map_of lk k else rd k)" for k
    using applyToSections_record[of lk True secs rd k] run by simp
  have keys: "layoutFieldIds secs' = layoutFieldIds secs"
    by (simp add: layoutFieldIds_layoutSlots slots comp_def)
  have slot: "fvalue (snd e') = v \<and> rd' k = Some v \<and> fieldValue (enhance rd' e') = v"
    if e': "e' \<in> set (layoutSlots secs')" and nb: "\<not> isBlankSpace (snd e')"
      and k: "toLowerCase (fst e') = k" and v: "map_of lk k = Some v" for e' k v
  proof -
    from e' slots obtain e where e: "e \<in> set (layoutSlots secs)"
      and e'e: "e' = withDefault lk True e" by auto
    from nb k v e'e have t: "takesDefault lk True e" and ke: "toLowerCase (fst e) = k"
      by (simp_all add: takesDefault_def)
    from t e'e ke v have 1: "fvalue (snd e') = v"
      by (simp add: withDefault_def)
    from e t ke v have 2: "rd' k = Some v"
      using rd'[of k] by auto
    from nb k 2 have 3: "fieldValue (enhance rd' e') = v"
      by (simp add: enhance_def recordValue_def)
    from 1 2 3 show ?thesis by simp
  qed
  have new_rd: "snd (newRecordSections complexLayout props config) = map_of lk"
    using assms(3) by (simp add: newRecordSections_def Let_def lk)
  have enhanced: "fieldValue ef = v"
    if ps: "ps \<in> set (fst (newRecordSections complexLayout props config))"
      and pc: "pc \<in> set (sectionColumns ps)" and ef: "ef \<in> set (enhancedFields pc)"
      and nb: "\<not> fieldIsBlankSpace ef" and k: "toLowerCase (fieldId ef) = k"
      and v: "map_of lk k = Some v" for ps pc ef k v
  proof -
    from ps have "ps \<in> set (processSections (map_of lk)
                     (removeExcludedFields (excludedFields props) (readOnly props)
                        (Some (parseFlexiPageJson complexLayout config))))"
      using assms(3) by (simp add: newRecordSections_def Let_def lk)
    from enhancedFields_of_processSections[OF this pc ef]
    obtain e where "ef = enhance (map_of lk) e" by blast
    with nb k v show ?thesis
      by (auto simp: enhance_def recordValue_def split: if_splits)
  qed
  have a: "map_of lk ''amount__c'' = Some (JNum (Fin 100))"
    and s: "map_of lk ''stage__c'' = Some (JStr ''Prospecting'')"
    by (simp_all add: lk_def)
  have assembled: "\<lparr>fieldId = fst e, fieldIsBlankSpace = False, fieldValue = v\<rparr>
                     \<in> set (assembledFields (fst (newRecordSections complexLayout props config)))"
    if e: "e \<in> set (layoutSlots
                      (removeExcludedFields (excludedFields props) (readOnly props)
                         (Some (parseFlexiPageJson complexLayout config))))"
      and vis: "truthy (isVisible (snd e)) \<and> \<not> isBlankSpace (snd e)"
      and k: "toLowerCase (fst e) = k" and v: "map_of lk k = Some v" for e k v
  proof -
    have "enhance (map_of lk) e
            \<in> set (assembledFields (fst (newRecordSections complexLayout props config)))"
      using visible_slot_assembled[OF e, of "map_of lk"] vis assms(3)
      by (simp add: newRecordSections_def Let_def lk)
    moreover from vis k v
    have "enhance (map_of lk) e = \<lparr>fieldId = fst e, fieldIsBlankSpace = False, fieldValue = v\<rparr>"
      by (simp add: enhance_def recordValue_def)
    ultimately show ?thesis by simp
  qed
  have lk_ne: "lk \<noteq> []" by (simp add: lk_def)
  have lk_props: "snd (parseDefaultValues (defaultValues props)) = lk"
    using assms(3) lk by simp
  have existing: "fieldValue ef = v \<and> rdOut k = Some v"
    if "isNewRecord (recordId props)"
      and "processFieldData complexLayout props config rd0 = Inr (out, rdOut)"
      and "ef \<in> set (assembledFields out)" and "\<not> fieldIsBlankSpace ef"
      and "toLowerCase (fieldId ef) = k" and "map_of lk k = Some v" for out rdOut ef k v
    using processFieldData_default[OF that(1) lk_props lk_ne that(2,3,4)] that(5,6) by simp
  show ?thesis
  proof (intro conjI)
    show "parseDefaultValues ''Amount__c:100;Stage__c:Prospecting''
            = ([(''Amount__c'', JNum (Fin 100)), (''Stage__c'', JStr ''Prospecting'')],
               [(''amount__c'', JNum (Fin 100)), (''stage__c'', JStr ''Prospecting'')])"
      by (rule scenarioB_parse)
    show "layoutFieldIds secs' = layoutFieldIds secs"
      by (rule keys)
    show "\<forall>e \<in> set (layoutSlots secs'). \<not> isBlankSpace (snd e) \<longrightarrow>
            (toLowerCase (fst e) = ''amount__c'' \<longrightarrow>
               fvalue (snd e) = JNum (Fin 100) \<and> rd' ''amount__c'' = Some (JNum (Fin 100))
               \<and> fieldValue (enhance rd' e) = JNum (Fin 100))
            \<and> (toLowerCase (fst e) = ''stage__c'' \<longrightarrow>
               fvalue (snd e) = JStr ''Prospecting'' \<and> rd' ''stage__c'' = Some (JStr ''Prospecting'')
               \<and> fieldValue (enhance rd' e) = JStr ''Prospecting'')"
      using slot[OF _ _ _ a] slot[OF _ _ _ s] by blast
    show "snd (newRecordSections complexLayout props config) ''amount__c''
            = Some (JNum (Fin 100))"
      by (simp add: new_rd a)
    show "snd (newRecordSections complexLayout props config) ''stage__c''
            = Some (JStr ''Prospecting'')"
      by (simp add: new_rd s)
    show "\<forall>ps \<in> set (fst (newRecordSections complexLayout props config)).
           \<forall>pc \<in> set (sectionColumns ps). \<forall>ef \<in> set (enhancedFields pc).
             \<not> fieldIsBlankSpace ef \<longrightarrow>
               (toLowerCase (fieldId ef) = ''amount__c'' \<longrightarrow> fieldValue ef = JNum (Fin 100))
               \<and> (toLowerCase (fieldId ef) = ''stage__c'' \<longrightarrow>
                    fieldValue ef = JStr ''Prospecting'')"
      using enhanced[OF _ _ _ _ _ a] enhanced[OF _ _ _ _ _ s] by blast
    show "\<forall>e \<in> set (layoutSlots
                        (removeExcludedFields (excludedFields props) (readOnly props)
                           (Some (parseFlexiPageJson complexLayout config)))).
            truthy (isVisible (snd e)) \<and> \<not> isBlankSpace (snd e) \<longrightarrow>
              (toLowerCase (fst e) = ''amount__c'' \<longrightarrow>
                 \<lparr>fieldId = fst e, fieldIsBlankSpace = False, fieldValue = JNum (Fin 100)\<rparr>
                   \<in> set (assembledFields (fst (newRecordSections complexLayout props config))))
              \<and> (toLowerCase (fst e) = ''stage__c'' \<longrightarrow>
                 \<lparr>fieldId = fst e, fieldIsBlankSpace = False, fieldValue = JStr ''Prospecting''\<rparr>
                   \<in> set (assembledFields (fst (newRecordSections complexLayout props config))))"
      using assembled[OF _ _ _ a] assembled[OF _ _ _ s] by blast
    show "isNewRecord (recordId props) \<longrightarrow>
            (\<forall>out rdOut. processFieldData complexLayout props config rd0 = Inr (out, rdOut) \<longrightarrow>
               (\<forall>ef \<in> set (assembledFields out). \<not> fieldIsBlankSpace ef \<longrightarrow>
                  (toLowerCase (fieldId ef) = ''amount__c'' \<longrightarrow>
                     fieldValue ef = JNum (Fin 100) \<and> rdOut ''amount__c'' = Some (JNum (Fin 100)))
                  \<and> (toLowerCase (fieldId ef) = ''stage__c'' \<longrightarrow>
                     fieldValue ef = JStr ''Prospecting''
                     \<and> rdOut ''stage__c'' = Some (JStr ''Prospecting''))))"
      using existing[OF _ _ _ _ _ a] existing[OF _ _ _ _ _ s] by blast
  qed
qed

text \<open>
  The theorem at the example layout (Name, Id, OWNERID, Amount__c, Stage__c, CreatedDate),
  for a record without identifier, an empty record data and no excluded field. Both
  assemblies produce the fields Name, Amount__c and Stage__c: Name without a value,
  Amount__c with 100 and Stage__c with Prospecting.
\<close>

theorem default_values_new_record_witness:
  "isNewRecord None
   \<and> defaultValues defaultsProperties = ''Amount__c:100;Stage__c:Prospecting''
   \<and> map (\<lambda>e. (fst e, fvalue (snd e)))
        (layoutSlots (fst (applyDefaultValues ''Amount__c:100;Stage__c:Prospecting'' None
                             exampleSections Map.empty)))
      = [(''Name'', JStr []), (''Id'', JStr []), (''OWNERID'', JStr []),
         (''Amount__c'', JNum (Fin 100)), (''Stage__c'', JStr ''Prospecting''),
         (''CreatedDate'', JStr [])]
   \<and> snd (applyDefaultValues ''Amount__c:100;Stage__c:Prospecting'' None
             exampleSections Map.empty) ''amount__c'' = Some (JNum (Fin 100))
   \<and> snd (applyDefaultValues ''Amount__c:100;Stage__c:Prospecting'' None
             exampleSections Map.empty) ''stage__c'' = Some (JStr ''Prospecting'')
   \<and> map (\<lambda>ef. (fieldId ef, fieldIsBlankSpace ef, fieldValue ef))
        (assembledFields (fst (newRecordSections noComplexLayout defaultsProperties
                                 exampleLayout)))
      = [(''Name'', False, JUndefined), (''Amount__c'', False, JNum (Fin 100)),
         (''Stage__c'', False, JStr ''Prospecting'')]
   \<and> \<lparr>fieldId = ''Amount__c'', fieldIsBlankSpace = False, fieldValue = JNum (Fin 100)\<rparr>
       \<in> set (assembledFields (fst (newRecordSections noComplexLayout defaultsProperties
                                     exampleLayout)))
   \<and> \<lparr>fieldId = ''Stage__c'', fieldIsBlankSpace = False, fieldValue = JStr ''Prospecting''\<rparr>
       \<in> set (assembledFields (fst (newRecordSections noComplexLayout defaultsProperties
                                     exampleLayout)))
   \<and> snd (newRecordSections noComplexLayout defaultsProperties exampleLayout) ''amount__c''
       = Some (JNum (Fin 100))
   \<and> snd (newRecordSections noComplexLayout defaultsProperties exampleLayout) ''stage__c''
       = Some (JStr ''Prospecting'')
   \<and> map_sum id
        (\<lambda>r. (map (\<lambda>ef. (fieldId ef, fieldIsBlankSpace ef, fieldValue ef))
                 (assembledFields (fst r)),
               snd r ''amount__c'', snd r ''stage__c''))
        (processFieldData noComplexLayout defaultsProperties exampleLayout Map.empty)
      = Inr ([(''Name'', False, JUndefined), (''Amount__c'', False, JNum (Fin 100)),
              (''Stage__c'', False, JStr ''Prospecting'')],
             Some (JNum (Fin 100)), Some (JStr ''Prospecting''))"
proof -
  define secs' where
    "secs' = fst (applyDefaultValues ''Amount__c:100;Stage__c:Prospecting'' None
                    exampleSections Map.empty)"
  define rd' where
    "rd' = snd (applyDefaultValues ''Amount__c:100;Stage__c:Prospecting'' None
                  exampleSections Map.empty)"
  define kept where
    "kept = removeExcludedFields (excludedFields defaultsProperties)
              (readOnly defaultsProperties)
              (Some (parseFlexiPageJson noComplexLayout exampleLayout))"
  define assembled where
    "assembled = assembledFields (fst (newRecordSections noComplexLayout defaultsProperties
                                         exampleLayout))"
  have new: "isNewRecord None"
    by (simp add: isNewRecord_def)
  have dv: "defaultValues defaultsProperties = ''Amount__c:100;Stage__c:Prospecting''"
    by (simp add: defaultsProperties_def)
  have run: "applyDefaultValues ''Amount__c:100;Stage__c:Prospecting'' None
               exampleSections Map.empty = (secs', rd')"
    by (simp add: secs'_def rd'_def)
  have slots: "map (\<lambda>e. (fst e, fvalue (snd e), isBlankSpace (snd e)))
                 (layoutSlots (fst (applyDefaultValues ''Amount__c:100;Stage__c:Prospecting''
                                      None exampleSections Map.empty)))
               = [(''Name'', JStr [], False), (''Id'', JStr [], False),
                  (''OWNERID'', JStr [], False), (''Amount__c'', JNum (Fin 100), False),
                  (''Stage__c'', JStr ''Prospecting'', False), (''CreatedDate'', JStr [], False)]"
    by code_simp
  have vals: "map (\<lambda>e. (fst e, fvalue (snd e))) (layoutSlots secs')
               = [(''Name'', JStr []), (''Id'', JStr []), (''OWNERID'', JStr []),
                  (''Amount__c'', JNum (Fin 100)), (''Stage__c'', JStr ''Prospecting''),
                  (''CreatedDate'', JStr [])]"
    unfolding secs'_def by code_simp
  have keptSlots: "map (\<lambda>e. (fst e, truthy (isVisible (snd e)), isBlankSpace (snd e)))
                     (layoutSlots
                        (removeExcludedFields (excludedFields defaultsProperties)
                           (readOnly defaultsProperties)
                           (Some (parseFlexiPageJson noComplexLayout exampleLayout))))
                   = [(''Name'', True, False), (''Amount__c'', True, False),
                      (''Stage__c'', True, False)]"
    by code_simp
  have out: "map (\<lambda>ef. (fieldId ef, fieldIsBlankSpace ef, fieldValue ef)) assembled
               = [(''Name'', False, JUndefined), (''Amount__c'', False, JNum (Fin 100)),
                  (''Stage__c'', False, JStr ''Prospecting'')]"
    unfolding assembled_def by code_simp
  have existing: "map_sum id
        (\<lambda>r. (map (\<lambda>ef. (fieldId ef, fieldIsBlankSpace ef, fieldValue ef))
                 (assembledFields (fst r)),
               snd r ''amount__c'', snd r ''stage__c''))
        (processFieldData noComplexLayout defaultsProperties exampleLayout Map.empty)
      = Inr ([(''Name'', False, JUndefined), (''Amount__c'', False, JNum (Fin 100)),
              (''Stage__c'', False, JStr ''Prospecting'')],
             Some (JNum (Fin 100)), Some (JStr ''Prospecting''))"
    by code_simp
  from slots obtain a s where a: "a \<in> set (layoutSlots secs')" "fst a = ''Amount__c''"
      "\<not> isBlankSpace (snd a)"
    and s: "s \<in> set (layoutSlots secs')" "fst s = ''Stage__c''" "\<not> isBlankSpace (snd s)"
    unfolding secs'_def by (auto simp: map_eq_Cons_conv)
  from keptSlots obtain ka ks where ka: "ka \<in> set (layoutSlots kept)" "fst ka = ''Amount__c''"
      "truthy (isVisible (snd ka)) \<and> \<not> isBlankSpace (snd ka)"
    and ks: "ks \<in> set (layoutSlots kept)" "fst ks = ''Stage__c''"
      "truthy (isVisible (snd ks)) \<and> \<not> isBlankSpace (snd ks)"
    unfolding kept_def by (auto simp: map_eq_Cons_conv)
  have la: "toLowerCase ''Amount__c'' = ''amount__c''" and ls: "toLowerCase ''Stage__c'' = ''stage__c''"
    by code_simp+
  note inst = default_values_new_record[where props = defaultsProperties
      and complexLayout = noComplexLayout and config = exampleLayout and ?rd0.0 = Map.empty,
      OF new run dv, folded kept_def assembled_def]
  from inst a s la ls
  have rec: "rd' ''amount__c'' = Some (JNum (Fin 100))"
      "rd' ''stage__c'' = Some (JStr ''Prospecting'')"
    by metis+
  from inst ka la
  have ina: "\<lparr>fieldId = ''Amount__c'', fieldIsBlankSpace = False, fieldValue = JNum (Fin 100)\<rparr>
               \<in> set assembled"
    by metis
  from inst ks ls
  have ins: "\<lparr>fieldId = ''Stage__c'', fieldIsBlankSpace = False,
               fieldValue = JStr ''Prospecting''\<rparr> \<in> set assembled"
    by metis
  from inst
  have newrec: "snd (newRecordSections noComplexLayout defaultsProperties exampleLayout)
                  ''amount__c'' = Some (JNum (Fin 100))"
      "snd (newRecordSections noComplexLayout defaultsProperties exampleLayout)
                  ''stage__c'' = Some (JStr ''Prospecting'')"
    by blast+
  from new dv vals rec out ina ins newrec existing show ?thesis
    unfolding secs'_def rd'_def assembled_def by (intro conjI)
qed

end
